theory Spec2Isabelle
  imports Main
begin

section \<open>Rollout inference of the sintering-physics example\<close>

text \<open>
  This theory embeds \<^verbatim>\<open>examples/additive_manufacturing/sintering_physics/inference.py\<close>:
  the per-example autoregressive rollout of \<^verbatim>\<open>Inference\<close>, the zero-padded global
  context handed to the learned simulator at each step, the sliding position window, and
  the JSON record written for each example.

  The learned simulator (\<^verbatim>\<open>LearnedSimulator\<close>), the dataset and \<^verbatim>\<open>utils\<close> are
  collaborators outside this source file; they enter the model as parameters.
\<close>

subsection \<open>Exceptions\<close>

text \<open>
  Every exception that the modelled lines can raise is a value. \<open>SimulatorError\<close> stands
  for whatever \<^verbatim>\<open>model.inference\<close> or checkpoint loading raises; the last four are the
  \<^verbatim>\<open>OSError\<close>s of \<^verbatim>\<open>os.makedirs\<close> and \<^verbatim>\<open>open\<close>.
\<close>

datatype error =
  AttributeError | IndexError | RuntimeError | SimulatorError
  | FileNotFoundError | FileExistsError | NotADirectoryError | IsADirectoryError

subsection \<open>Tensors\<close>

text \<open>
  A tensor is its size (\<^verbatim>\<open>t.shape\<close>) together with its entries in row-major order, the
  order of a contiguous torch tensor. Device and dtype are not modelled: \<^verbatim>\<open>.to(device)\<close>
  returns the same values. A tensor of torch always has as many entries as its shape says;
  \<open>well_formed\<close> states that.
\<close>

record 'e tensor =
  shape :: "nat list"
  elems :: "'e list"

definition well_formed :: "'e tensor \<Rightarrow> bool" where
  "well_formed t = (length (elems t) = prod_list (shape t))"

text \<open>\<open>rows n k xs\<close> cuts the first \<open>n * k\<close> entries of \<open>xs\<close> into \<open>n\<close> blocks of \<open>k\<close>.\<close>

fun rows :: "nat \<Rightarrow> nat \<Rightarrow> 'e list \<Rightarrow> 'e list list" where
  "rows 0 k xs = []"
| "rows (Suc n) k xs = take k xs # rows n k (drop k xs)"

text \<open>
  \<^verbatim>\<open>x.to(device)\<close> on a value that may be \<^verbatim>\<open>None\<close>: Python raises
  \<^verbatim>\<open>AttributeError: 'NoneType' object has no attribute 'to'\<close>.
\<close>

definition to_device :: "'e tensor option \<Rightarrow> error + 'e tensor" where
  "to_device x = (case x of None \<Rightarrow> Inl AttributeError | Some t \<Rightarrow> Inr t)"

text \<open>\<^verbatim>\<open>t.shape[0]\<close>; a 0-dimensional tensor has an empty shape tuple.\<close>

definition shape0 :: "'e tensor \<Rightarrow> error + int" where
  "shape0 t = (case shape t of [] \<Rightarrow> Inl IndexError | n # _ \<Rightarrow> Inr (int n))"

text \<open>
  \<^verbatim>\<open>t[:n]\<close>, a slice of the first axis up to the Python integer \<open>n\<close>: a negative \<open>n\<close> counts
  from the end, and the bound is clamped to the axis. torch refuses to slice a
  0-dimensional tensor.
\<close>

definition slice0_to :: "int \<Rightarrow> 'e tensor \<Rightarrow> error + 'e tensor" where
  "slice0_to n t =
     (case shape t of
        [] \<Rightarrow> Inl IndexError
      | l # rest \<Rightarrow>
          (let stop = (if n < 0 then nat (int l + n) else min (nat n) l)
           in Inr \<lparr>shape = stop # rest, elems = take (stop * prod_list rest) (elems t)\<rparr>))"

text \<open>
  \<^verbatim>\<open>t[:, lo:hi]\<close> with \<open>0 \<le> lo\<close> and \<open>0 \<le> hi\<close> (\<open>None\<close> for an open upper bound): a slice of the
  second axis, bounds clamped. Indexing two axes of a tensor with fewer raises
  \<^verbatim>\<open>IndexError\<close>.
\<close>

definition slice1 :: "nat \<Rightarrow> nat option \<Rightarrow> 'e tensor \<Rightarrow> error + 'e tensor" where
  "slice1 lo hi t =
     (case shape t of
        n # m # rest \<Rightarrow>
          (let stop = (case hi of None \<Rightarrow> m | Some h \<Rightarrow> min h m);
               start = min lo m;
               inner = prod_list rest
           in Inr \<lparr>shape = n # (stop - start) # rest,
                   elems = concat (map (\<lambda>r. take ((stop - start) * inner) (drop (start * inner) r))
                                       (rows n (m * inner) (elems t)))\<rparr>)
      | _ \<Rightarrow> Inl IndexError)"

text \<open>
  \<^verbatim>\<open>t[:, i]\<close> for a Python integer \<open>i\<close>: the second axis is removed. A negative index counts
  from the end; an index outside the axis raises \<^verbatim>\<open>IndexError\<close>.
\<close>

definition select1 :: "int \<Rightarrow> 'e tensor \<Rightarrow> error + 'e tensor" where
  "select1 i t =
     (case shape t of
        n # m # rest \<Rightarrow>
          (let j = (if i < 0 then int m + i else i);
               inner = prod_list rest
           in if 0 \<le> j \<and> j < int m
              then Inr \<lparr>shape = n # rest,
                        elems = concat (map (\<lambda>r. take inner (drop (nat j * inner) r))
                                            (rows n (m * inner) (elems t)))\<rparr>
              else Inl IndexError)
      | _ \<Rightarrow> Inl IndexError)"

text \<open>
  \<^verbatim>\<open>t.squeeze(1)\<close>: drops the second axis when its size is 1 and leaves the tensor as it is
  otherwise; the axis must exist.
\<close>

definition squeeze1 :: "'e tensor \<Rightarrow> error + 'e tensor" where
  "squeeze1 t =
     (case shape t of
        n # m # rest \<Rightarrow> Inr (if m = 1 then t\<lparr>shape := n # rest\<rparr> else t)
      | _ \<Rightarrow> Inl IndexError)"

text \<open>\<^verbatim>\<open>t.unsqueeze(1)\<close>: a new second axis of size 1; the first axis must exist.\<close>

definition unsqueeze1 :: "'e tensor \<Rightarrow> error + 'e tensor" where
  "unsqueeze1 t =
     (case shape t of
        [] \<Rightarrow> Inl IndexError
      | n # rest \<Rightarrow> Inr (t\<lparr>shape := n # 1 # rest\<rparr>))"

text \<open>
  \<^verbatim>\<open>torch.zeros([n, 1])\<close> for a Python integer \<open>n\<close>: a negative size raises
  \<^verbatim>\<open>RuntimeError\<close> (``Trying to create tensor with negative dimension'').
\<close>

definition zeros_col :: "int \<Rightarrow> error + ('e::zero) tensor" where
  "zeros_col n =
     (if n < 0 then Inl RuntimeError
      else Inr \<lparr>shape = [nat n, 1], elems = replicate (nat n) 0\<rparr>)"

text \<open>
  \<^verbatim>\<open>torch.cat([a, b], d)\<close>. A one-dimensional empty tensor is skipped; otherwise both
  tensors need the same number of axes, \<open>d\<close> must be one of them, and all sizes but that of
  axis \<open>d\<close> must agree. The blocks of \<open>a\<close> and \<open>b\<close> below axis \<open>d\<close> alternate in the result.
\<close>

definition cat :: "'e tensor \<Rightarrow> 'e tensor \<Rightarrow> nat \<Rightarrow> error + 'e tensor" where
  "cat a b d =
     (if shape a = [0] then Inr b
      else if shape b = [0] then Inr a
      else if length (shape a) \<noteq> length (shape b) then Inl RuntimeError
      else if length (shape a) \<le> d then Inl IndexError
      else if (shape a)[d := 0] \<noteq> (shape b)[d := 0] then Inl RuntimeError
      else
        (let outer = prod_list (take d (shape a))
         in Inr \<lparr>shape = (shape a)[d := shape a ! d + shape b ! d],
                 elems = concat (map2 (@)
                           (rows outer (prod_list (drop d (shape a))) (elems a))
                           (rows outer (prod_list (drop d (shape b))) (elems b)))\<rparr>))"

text \<open>
  \<^verbatim>\<open>torch.stack(ts)\<close>: the list must not be empty and all tensors must have the shape of
  the first; the result has a new first axis.
\<close>

definition stack :: "'e tensor list \<Rightarrow> error + 'e tensor" where
  "stack ts =
     (case ts of
        [] \<Rightarrow> Inl RuntimeError
      | t # _ \<Rightarrow>
          if list_all (\<lambda>u. shape u = shape t) ts
          then Inr \<lparr>shape = length ts # shape t, elems = concat (map elems ts)\<rparr>
          else Inl RuntimeError)"

text \<open>
  \<^verbatim>\<open>torch.reshape(t, [1, -1])\<close>: one row holding every entry. With no entry the size
  \<open>-1\<close> stands for is ambiguous and torch raises \<^verbatim>\<open>RuntimeError\<close>.
\<close>

definition reshape_row :: "'e tensor \<Rightarrow> error + 'e tensor" where
  "reshape_row t =
     (if prod_list (shape t) = 0 then Inl RuntimeError
      else Inr (t\<lparr>shape := [1, prod_list (shape t)]\<rparr>))"

subsection \<open>Sequencing of calls that may raise\<close>

text \<open>The first exception ends the computation, as it does in Python without a handler.\<close>

definition and_then :: "error + 'x \<Rightarrow> ('x \<Rightarrow> error + 'y) \<Rightarrow> error + 'y" where
  "and_then m f = (case m of Inl e \<Rightarrow> Inl e | Inr x \<Rightarrow> f x)"

text \<open>
  \<^verbatim>\<open>for step in range(n): body\<close> over the loop variables \<open>s\<close>; the steps are given as the
  list that \<^verbatim>\<open>range(n)\<close> enumerates. \<^verbatim>\<open>range\<close> of a negative integer is empty.
\<close>

fun for_steps :: "(nat \<Rightarrow> 's \<Rightarrow> error + 's) \<Rightarrow> nat list \<Rightarrow> 's \<Rightarrow> error + 's" where
  "for_steps body [] s = Inr s"
| "for_steps body (k # ks) s = and_then (body k s) (for_steps body ks)"

definition range_py :: "int \<Rightarrow> nat list" where
  "range_py n = [0..<nat n]"

subsection \<open>Constants, features, simulator\<close>

definition INPUT_SEQUENCE_LENGTH :: nat where
  "INPUT_SEQUENCE_LENGTH = 5"

definition PREDICT_LENGTH :: nat where
  "PREDICT_LENGTH = 1"

text \<open>
  One example of the dataset, the dictionary \<^verbatim>\<open>features\<close>. Only \<^verbatim>\<open>step_context\<close> is
  compared with \<^verbatim>\<open>None\<close> by the source, so only it is optional here.
\<close>

record 'a features =
  position :: "'a tensor"
  n_particles_per_example :: "int tensor"
  n_edges_per_example :: "int tensor"
  senders :: "int tensor"
  receivers :: "int tensor"
  particle_type :: "int tensor"
  step_context :: "'a tensor option"

text \<open>
  The keyword arguments of \<^verbatim>\<open>model.inference\<close>. The argument \<^verbatim>\<open>global_context\<close> is the
  value of \<^verbatim>\<open>global_context_step.to(device)\<close>, hence a tensor.
\<close>

record 'a inference_args =
  arg_position_sequence :: "'a tensor"
  arg_n_particles_per_example :: "int tensor"
  arg_n_edges_per_example :: "int tensor"
  arg_senders :: "int tensor"
  arg_receivers :: "int tensor"
  arg_predict_length :: nat
  arg_particle_types :: "int tensor"
  arg_global_context :: "'a tensor"

text \<open>
  The learned simulator, a parameter: \<open>inference_initial\<close> is \<^verbatim>\<open>model.inference\<close> before the
  checkpoint is loaded (the forward pass that fixes the dynamic input sizes),
  \<open>load_state_dict\<close> the outcome of loading the checkpoint and moving the model to its
  device (lines 183 to 194), \<open>inference\<close> is \<^verbatim>\<open>model.inference\<close> afterwards. Under
  \<^verbatim>\<open>torch.no_grad()\<close> and \<^verbatim>\<open>model.eval()\<close> a call is a function of its arguments.
\<close>

record 'a simulator =
  inference_initial :: "'a inference_args \<Rightarrow> error + 'a tensor"
  load_state_dict :: "error option"
  inference :: "'a inference_args \<Rightarrow> error + 'a tensor"

subsection \<open>The context of one step (lines 222 to 233)\<close>

text \<open>
  The \<^verbatim>\<open>else\<close> branch. Line 226 reads the context up to \<open>step + INPUT_SEQUENCE_LENGTH\<close>;
  lines 227 to 230 make a column of zeros with
  \<open>global_context.shape[0] - read_step_context.shape[0] - 1\<close> rows; lines 232 and 233 put it
  below the context read and turn the whole into one row.
\<close>

definition read_step_context :: "'a tensor \<Rightarrow> nat \<Rightarrow> error + 'a tensor" where
  "read_step_context global_context step =
     slice0_to (int step + int INPUT_SEQUENCE_LENGTH) global_context"

definition zero_pad :: "('a::zero) tensor \<Rightarrow> 'a tensor \<Rightarrow> error + 'a tensor" where
  "zero_pad global_context read =
     and_then (shape0 global_context) (\<lambda>l.
     and_then (shape0 read) (\<lambda>r.
       zeros_col (l - r - 1)))"

definition context_step :: "('a::zero) tensor \<Rightarrow> nat \<Rightarrow> error + 'a tensor" where
  "context_step global_context step =
     and_then (read_step_context global_context step) (\<lambda>read.
     and_then (zero_pad global_context read) (\<lambda>pad.
     and_then (cat read pad 0) reshape_row))"

definition global_context_step :: "('a::zero) tensor option \<Rightarrow> nat \<Rightarrow> error + 'a tensor option" where
  "global_context_step global_context step =
     (case global_context of
        None \<Rightarrow> Inr None
      | Some g \<Rightarrow> and_then (context_step g step) (\<lambda>c. Inr (Some c)))"

subsection \<open>One rollout step (lines 221 to 271)\<close>

text \<open>The keyword arguments of \<^verbatim>\<open>model.inference\<close> as the source fills them from \<^verbatim>\<open>features\<close>.\<close>

definition inference_args_of :: "'a features \<Rightarrow> 'a tensor \<Rightarrow> 'a tensor \<Rightarrow> 'a inference_args" where
  "inference_args_of features position_sequence g =
     \<lparr>arg_position_sequence = position_sequence,
      arg_n_particles_per_example = n_particles_per_example features,
      arg_n_edges_per_example = n_edges_per_example features,
      arg_senders = senders features,
      arg_receivers = receivers features,
      arg_predict_length = PREDICT_LENGTH,
      arg_particle_types = particle_type features,
      arg_global_context = g\<rparr>"

text \<open>
  Lines 222 to 246 up to the call: the context of the step, then the arguments. The
  last argument is \<^verbatim>\<open>global_context_step.to(device)\<close>, which raises when
  \<^verbatim>\<open>global_context_step\<close> is \<^verbatim>\<open>None\<close>.
\<close>

definition step_args ::
  "('a::zero) features \<Rightarrow> 'a tensor option \<Rightarrow> nat \<Rightarrow> 'a tensor \<Rightarrow> error + 'a inference_args" where
  "step_args features global_context step current =
     and_then (global_context_step global_context step) (\<lambda>gcs.
     and_then (to_device gcs) (\<lambda>g.
       Inr (inference_args_of features current g)))"

text \<open>
  The local variables of the rollout that outlive a step.
\<close>

record 'a rollout_state =
  initial_positions :: "'a tensor"
  current_positions :: "'a tensor"
  updated_predictions :: "'a tensor list"

text \<open>
  The body of the loop. \<open>get_kinematic_mask\<close> is \<^verbatim>\<open>utils.get_kinematic_mask\<close> followed by
  the conversion to \<^verbatim>\<open>torch.bool\<close>, a parameter; its value is bound to
  \<^verbatim>\<open>kinematic_mask\<close> and, the masking being commented out (lines 256 to 265), not read.
\<close>

definition rollout_step ::
  "'a simulator \<Rightarrow> (int tensor \<Rightarrow> bool tensor) \<Rightarrow> ('a::zero) features \<Rightarrow> 'a tensor option \<Rightarrow>
   nat \<Rightarrow> 'a rollout_state \<Rightarrow> error + 'a rollout_state" where
  "rollout_step model get_kinematic_mask features global_context step st =
     and_then (step_args features global_context step (current_positions st)) (\<lambda>args.
     and_then (inference model args) (\<lambda>predict_positions.
       let kinematic_mask = get_kinematic_mask (particle_type features) in
     and_then (select1 0 predict_positions) (\<lambda>first_prediction.
     and_then (squeeze1 first_prediction) (\<lambda>predict_positions.
       let next_position = predict_positions in
     and_then (slice1 1 None (current_positions st)) (\<lambda>rest.
     and_then (unsqueeze1 next_position) (\<lambda>newest.
     and_then (cat rest newest 1) (\<lambda>window.
       Inr (st\<lparr>updated_predictions := updated_predictions st @ [next_position],
               current_positions := window\<rparr>))))))))"

subsection \<open>The rollout of one example (lines 197 to 273)\<close>

text \<open>
  \<open>rollout_loop\<close> is the state after the \<^verbatim>\<open>for\<close> loop, \<open>rollout\<close> adds
  \<^verbatim>\<open>torch.stack(updated_predictions)\<close> and returns the local variables that the record
  is built from.
\<close>

definition rollout_init :: "'a tensor \<Rightarrow> 'a rollout_state" where
  "rollout_init initial =
     \<lparr>initial_positions = initial, current_positions = initial, updated_predictions = []\<rparr>"

definition rollout_loop ::
  "'a simulator \<Rightarrow> (int tensor \<Rightarrow> bool tensor) \<Rightarrow> ('a::zero) features \<Rightarrow>
   error + ('a tensor \<times> 'a rollout_state)" where
  "rollout_loop model get_kinematic_mask features =
     and_then (slice1 0 (Some INPUT_SEQUENCE_LENGTH) (position features)) (\<lambda>initial.
     and_then (to_device (step_context features)) (\<lambda>global_context.
     and_then (shape0 global_context) (\<lambda>l.
       let num_steps = l - int INPUT_SEQUENCE_LENGTH in
     and_then (for_steps (rollout_step model get_kinematic_mask features (Some global_context))
                 (range_py num_steps) (rollout_init initial)) (\<lambda>st.
       Inr (global_context, st)))))"

text \<open>
  Lines 273 to 282 need \<^verbatim>\<open>torch.stack\<close> of the predictions; the values kept for the record
  are the initial window and the stacked predictions.
\<close>

definition rollout ::
  "'a simulator \<Rightarrow> (int tensor \<Rightarrow> bool tensor) \<Rightarrow> ('a::zero) features \<Rightarrow>
   error + ('a tensor \<times> 'a tensor \<times> 'a tensor)" where
  "rollout model get_kinematic_mask features =
     and_then (rollout_loop model get_kinematic_mask features) (\<lambda>(global_context, st).
     and_then (stack (updated_predictions st)) (\<lambda>stacked.
       Inr (initial_positions st, stacked, global_context)))"

subsection \<open>The record of one example (lines 279 to 295)\<close>

text \<open>
  What \<^verbatim>\<open>json.dump\<close> receives: numbers, lists and dictionaries, a dictionary with its
  keys in insertion order.
\<close>

datatype 'a json = JFloat 'a | JInt int | JList "'a json list" | JDict "(string \<times> 'a json) list"

text \<open>
  \<^verbatim>\<open>t.cpu().numpy().tolist()\<close>: the nested lists of a tensor, one level for each axis. A
  0-dimensional tensor has one entry, which is the result.
\<close>

fun nested :: "('e \<Rightarrow> 'a json) \<Rightarrow> nat list \<Rightarrow> 'e list \<Rightarrow> 'a json" where
  "nested leaf [] xs = (case xs of [] \<Rightarrow> JList [] | x # _ \<Rightarrow> leaf x)"
| "nested leaf (n # sh) xs = JList (map (nested leaf sh) (rows n (prod_list sh) xs))"

definition tolist :: "('e \<Rightarrow> 'a json) \<Rightarrow> 'e tensor \<Rightarrow> 'a json" where
  "tolist leaf t = nested leaf (shape t) (elems t)"

definition rollout_op ::
  "'a json \<Rightarrow> 'a features \<Rightarrow> 'a tensor \<times> 'a tensor \<times> 'a tensor \<Rightarrow> 'a json" where
  "rollout_op metadata features r =
     (case r of (initial, predictions, global_context) \<Rightarrow>
        JDict [(''initial_positions'', tolist JFloat initial),
               (''predicted_rollout'', tolist JFloat predictions),
               (''particle_types'', tolist JInt (particle_type features)),
               (''global_context'', tolist JFloat global_context),
               (''metadata'', metadata)])"

subsection \<open>Writing the record (lines 296 to 303)\<close>

text \<open>
  The file system: the directories that exist, each by its path without a separator at the
  end, and the regular files with what was dumped into them. Paths are taken as written:
  two spellings of one path (\<^verbatim>\<open>.\<close>, \<^verbatim>\<open>..\<close>, links) are two paths. The root and the
  working directory exist. Failures of the medium (permissions, space) are not modelled.
\<close>

record 'a filesystem =
  dirs :: "string set"
  files :: "string \<rightharpoonup> 'a json"

definition is_root :: "string \<Rightarrow> bool" where
  "is_root p = (p \<noteq> [] \<and> list_all (\<lambda>c. c = CHR ''/'') p)"

definition strip_sep :: "string \<Rightarrow> string" where
  "strip_sep p = (if is_root p then p else rev (dropWhile (\<lambda>c. c = CHR ''/'') (rev p)))"

text \<open>
  The directories that a path goes through, outermost first: what stands before each
  separator, the root left out.
\<close>

definition ancestors :: "string \<Rightarrow> string list" where
  "ancestors p =
     filter (\<lambda>a. \<not> is_root a)
       (map (\<lambda>i. strip_sep (take i p)) (filter (\<lambda>i. p ! i = CHR ''/'') [1..<length p]))"

definition is_dir :: "'a filesystem \<Rightarrow> string \<Rightarrow> bool" where
  "is_dir fs p = (is_root p \<or> strip_sep p \<in> dirs fs)"

definition is_file :: "'a filesystem \<Rightarrow> string \<Rightarrow> bool" where
  "is_file fs p = (p \<noteq> [] \<and> last p \<noteq> CHR ''/'' \<and> files fs p \<noteq> None)"

text \<open>\<^verbatim>\<open>os.path.exists(p)\<close>; the empty path does not exist.\<close>

definition path_exists :: "'a filesystem \<Rightarrow> string \<Rightarrow> bool" where
  "path_exists fs p = (p \<noteq> [] \<and> (is_dir fs p \<or> is_file fs p))"

text \<open>
  Walking the directories of a path: the first that is a regular file raises
  \<^verbatim>\<open>NotADirectoryError\<close>, the first that does not exist \<^verbatim>\<open>FileNotFoundError\<close>.
\<close>

fun walk :: "'a filesystem \<Rightarrow> string list \<Rightarrow> error option" where
  "walk fs [] = None"
| "walk fs (a # as) =
     (if is_file fs a then Some NotADirectoryError
      else if a \<notin> dirs fs then Some FileNotFoundError
      else walk fs as)"

text \<open>
  \<^verbatim>\<open>os.makedirs(p)\<close>: the empty path raises \<^verbatim>\<open>FileNotFoundError\<close>, a path that exists
  \<^verbatim>\<open>FileExistsError\<close>, a path through a regular file \<^verbatim>\<open>NotADirectoryError\<close>; otherwise
  the directory and those on the way to it that are missing are created.
\<close>

definition makedirs :: "string \<Rightarrow> 'a filesystem \<Rightarrow> error + 'a filesystem" where
  "makedirs p fs =
     (if p = [] then Inl FileNotFoundError
      else if path_exists fs p \<or> is_file fs (strip_sep p) then Inl FileExistsError
      else if list_ex (is_file fs) (ancestors p) then Inl NotADirectoryError
      else Inr (fs\<lparr>dirs := dirs fs \<union> set (ancestors p) \<union> {strip_sep p}\<rparr>))"

text \<open>
  \<^verbatim>\<open>open(filename, "w")\<close> followed by \<^verbatim>\<open>json.dump\<close>: the directories of the path must
  exist, and the path must not be a directory; then the file holds the value, whatever it
  held before.
\<close>

definition dump :: "string \<Rightarrow> 'a json \<Rightarrow> 'a filesystem \<Rightarrow> error + 'a filesystem" where
  "dump filename v fs =
     (if filename = [] then Inl FileNotFoundError
      else
        (case walk fs (ancestors filename) of
           Some e \<Rightarrow> Inl e
         | None \<Rightarrow>
             if is_dir fs filename then Inl IsADirectoryError
             else Inr (fs\<lparr>files := (files fs)(filename \<mapsto> v)\<rparr>)))"

text \<open>\<^verbatim>\<open>str(n)\<close> for \<open>n \<ge> 0\<close>, the decimal digits.\<close>

definition digit :: "nat \<Rightarrow> char" where
  "digit d = ''0123456789'' ! d"

fun str :: "nat \<Rightarrow> string" where
  "str n = (if n < 10 then [digit n] else str (n div 10) @ [digit (n mod 10)])"

declare str.simps [simp del]



text \<open>
  \<^verbatim>\<open>os.path.join(a, b)\<close> of \<^verbatim>\<open>posixpath\<close>: an absolute \<open>b\<close> replaces \<open>a\<close>, and a separator is
  put between them unless \<open>a\<close> is empty or ends with one.
\<close>

definition path_join :: "string \<Rightarrow> string \<Rightarrow> string" where
  "path_join a b =
     (if b \<noteq> [] \<and> hd b = CHR ''/'' then b
      else if a = [] \<or> last a = CHR ''/'' then a @ b
      else a @ ''/'' @ b)"

text \<open>The two fields of \<^verbatim>\<open>Constants\<close> that the loop over the examples reads.\<close>

record constants =
  eval_split :: string
  output_path :: string

definition rollout_filename :: "constants \<Rightarrow> nat \<Rightarrow> string" where
  "rollout_filename C example_index =
     path_join (output_path C) (''rollout_'' @ eval_split C @ ''_'' @ str example_index @ ''.json'')"

text \<open>
  Lines 298 to 301. The result is the exception raised, if any, and the file system as the
  lines left it: when \<^verbatim>\<open>open\<close> raises, a directory made at line 299 stays.
\<close>

definition write_record ::
  "constants \<Rightarrow> nat \<Rightarrow> 'a json \<Rightarrow> 'a filesystem \<Rightarrow> error option \<times> 'a filesystem" where
  "write_record C example_index v fs =
     (case (if \<not> path_exists fs (output_path C) then makedirs (output_path C) fs else Inr fs) of
        Inl e \<Rightarrow> (Some e, fs)
      | Inr made \<Rightarrow>
          (case dump (rollout_filename C example_index) v made of
             Inl e \<Rightarrow> (Some e, made)
           | Inr written \<Rightarrow> (None, written)))"

subsection \<open>The loop over the examples (lines 152 to 304)\<close>

text \<open>
  The forward pass before the checkpoint is loaded (lines 159 to 195), run for the first
  example only. \<^verbatim>\<open>global_context\<close> is the value of a \<^verbatim>\<open>.to(device)\<close> that returned, so
  the test \<^verbatim>\<open>global_context is None\<close> of line 160 is false and the \<^verbatim>\<open>else\<close> branch runs.
\<close>

definition load_model :: "'a simulator \<Rightarrow> 'a features \<Rightarrow> error + unit" where
  "load_model model features =
     and_then (to_device (step_context features)) (\<lambda>global_context.
     and_then (slice0_to (- 1) global_context) (\<lambda>cut.
     and_then (reshape_row cut) (\<lambda>gcs.
     and_then (slice1 0 (Some INPUT_SEQUENCE_LENGTH) (position features)) (\<lambda>window.
     and_then (to_device (Some gcs)) (\<lambda>g.
     and_then (inference_initial model (inference_args_of features window g)) (\<lambda>_.
       case load_state_dict model of Some e \<Rightarrow> Inl e | None \<Rightarrow> Inr ()))))))"

text \<open>
  The variables that live across examples: \<^verbatim>\<open>loaded\<close>, \<^verbatim>\<open>example_index\<close> and the file
  system.
\<close>

record 'a run_state =
  loaded :: bool
  example_index :: nat
  fs :: "'a filesystem"

definition example_record ::
  "'a json \<Rightarrow> 'a simulator \<Rightarrow> (int tensor \<Rightarrow> bool tensor) \<Rightarrow> ('a::zero) features \<Rightarrow> error + 'a json" where
  "example_record metadata model get_kinematic_mask features =
     and_then (rollout model get_kinematic_mask features) (\<lambda>r.
       Inr (rollout_op metadata features r))"

text \<open>
  The body of the loop up to the dictionary (lines 157 to 295), then the whole body. These
  lines do not touch the file system.
\<close>

definition example_value ::
  "'a json \<Rightarrow> 'a simulator \<Rightarrow> (int tensor \<Rightarrow> bool tensor) \<Rightarrow> ('a::zero) features \<Rightarrow>
   'a run_state \<Rightarrow> error + 'a json" where
  "example_value metadata model get_kinematic_mask features st =
     and_then (if loaded st then Inr () else load_model model features) (\<lambda>_.
       example_record metadata model get_kinematic_mask features)"

definition example_body ::
  "constants \<Rightarrow> 'a json \<Rightarrow> 'a simulator \<Rightarrow> (int tensor \<Rightarrow> bool tensor) \<Rightarrow> ('a::zero) features \<Rightarrow>
   'a run_state \<Rightarrow> error + 'a run_state" where
  "example_body C metadata model get_kinematic_mask features st =
     and_then (example_value metadata model get_kinematic_mask features st) (\<lambda>v.
       case write_record C (example_index st) v (fs st) of
         (Some e, left) \<Rightarrow> Inl e
       | (None, written) \<Rightarrow>
           Inr \<lparr>loaded = True, example_index = example_index st + 1, fs = written\<rparr>)"

text \<open>The file system that a body leaves when it raises.\<close>

definition files_when_raised ::
  "constants \<Rightarrow> 'a json \<Rightarrow> 'a simulator \<Rightarrow> (int tensor \<Rightarrow> bool tensor) \<Rightarrow> ('a::zero) features \<Rightarrow>
   'a run_state \<Rightarrow> 'a filesystem" where
  "files_when_raised C metadata model get_kinematic_mask features st =
     (case example_value metadata model get_kinematic_mask features st of
        Inl e \<Rightarrow> fs st
      | Inr v \<Rightarrow> snd (write_record C (example_index st) v (fs st)))"

text \<open>
  \<^verbatim>\<open>for features, targets in tqdm(dataset)\<close>: no statement of the loop is inside a
  \<^verbatim>\<open>try\<close>, so an exception of the body leaves \<^verbatim>\<open>Inference\<close>. The result is the exception,
  if any, with \<^verbatim>\<open>loaded\<close> and \<^verbatim>\<open>example_index\<close> as the last completed example left them
  and the file system as the exception left it.
\<close>

fun examples_loop ::
  "constants \<Rightarrow> 'a json \<Rightarrow> 'a simulator \<Rightarrow> (int tensor \<Rightarrow> bool tensor) \<Rightarrow> ('a::zero) features list \<Rightarrow>
   'a run_state \<Rightarrow> error option \<times> 'a run_state" where
  "examples_loop C metadata model get_kinematic_mask [] st = (None, st)"
| "examples_loop C metadata model get_kinematic_mask (features # dataset) st =
     (case example_body C metadata model get_kinematic_mask features st of
        Inl e \<Rightarrow>
          (Some e, st\<lparr>fs := files_when_raised C metadata model get_kinematic_mask features st\<rparr>)
      | Inr st' \<Rightarrow> examples_loop C metadata model get_kinematic_mask dataset st')"

definition Inference ::
  "constants \<Rightarrow> 'a json \<Rightarrow> 'a simulator \<Rightarrow> (int tensor \<Rightarrow> bool tensor) \<Rightarrow> ('a::zero) features list \<Rightarrow>
   'a filesystem \<Rightarrow> error option \<times> 'a run_state" where
  "Inference C metadata model get_kinematic_mask dataset files0 =
     examples_loop C metadata model get_kinematic_mask dataset
       \<lparr>loaded = False, example_index = 0, fs = files0\<rparr>"

subsection \<open>A small dataset\<close>

text \<open>
  One particle in two dimensions, six recorded snapshots, a context of seven values, and a
  simulator that moves the newest snapshot by the sum of the context it is given and
  raises on a negative coordinate.
\<close>

definition toy_inference :: "int inference_args \<Rightarrow> error + int tensor" where
  "toy_inference args =
     (if list_ex (\<lambda>x. x < 0) (elems (arg_position_sequence args)) then Inl SimulatorError
      else
        and_then (select1 (- 1) (arg_position_sequence args)) (\<lambda>newest.
        and_then (unsqueeze1 newest) (\<lambda>t.
          Inr (t\<lparr>elems := map (\<lambda>x. x + sum_list (elems (arg_global_context args))) (elems t)\<rparr>))))"

definition toy_model :: "int simulator" where
  "toy_model =
     \<lparr>inference_initial = toy_inference, load_state_dict = None, inference = toy_inference\<rparr>"

definition toy_mask :: "int tensor \<Rightarrow> bool tensor" where
  "toy_mask t = \<lparr>shape = shape t, elems = map (\<lambda>x. x = 0) (elems t)\<rparr>"

definition toy_context :: "int tensor" where
  "toy_context = \<lparr>shape = [7, 1], elems = [1, 2, 3, 4, 5, 6, 7]\<rparr>"

definition toy_position :: "int tensor" where
  "toy_position = \<lparr>shape = [1, 6, 2], elems = [0, 1, 2, 3, 4, 5, 6, 7, 8, 9, 10, 11]\<rparr>"

definition toy_window :: "int tensor" where
  "toy_window = \<lparr>shape = [1, 5, 2], elems = [0, 1, 2, 3, 4, 5, 6, 7, 8, 9]\<rparr>"

definition toy_features :: "int features" where
  "toy_features =
     \<lparr>position = toy_position,
      n_particles_per_example = \<lparr>shape = [1], elems = [1]\<rparr>,
      n_edges_per_example = \<lparr>shape = [1], elems = [0]\<rparr>,
      senders = \<lparr>shape = [0], elems = []\<rparr>,
      receivers = \<lparr>shape = [0], elems = []\<rparr>,
      particle_type = \<lparr>shape = [1], elems = [0]\<rparr>,
      step_context = Some toy_context\<rparr>"

definition toy_constants :: constants where
  "toy_constants = \<lparr>eval_split = ''test'', output_path = ''out''\<rparr>"

definition empty_filesystem :: "int filesystem" where
  "empty_filesystem = \<lparr>dirs = {}, files = Map.empty\<rparr>"

definition toy_after_first_step :: "int rollout_state" where
  "toy_after_first_step =
     \<lparr>initial_positions = toy_window,
      current_positions = \<lparr>shape = [1, 5, 2], elems = [2, 3, 4, 5, 6, 7, 8, 9, 23, 24]\<rparr>,
      updated_predictions = [\<lparr>shape = [1, 2], elems = [23, 24]\<rparr>]\<rparr>"

definition toy_rollout :: "int tensor" where
  "toy_rollout = \<lparr>shape = [2, 1, 2], elems = [23, 24, 44, 45]\<rparr>"


definition toy_no_mask :: "int tensor \<Rightarrow> bool tensor" where
  "toy_no_mask t = \<lparr>shape = shape t, elems = map (\<lambda>x. False) (elems t)\<rparr>"

definition toy_features_longer :: "int features" where
  "toy_features_longer =
     toy_features\<lparr>position :=
       \<lparr>shape = [1, 7, 2], elems = [0, 1, 2, 3, 4, 5, 6, 7, 8, 9, 100, 200, 300, 400]\<rparr>\<rparr>"

definition toy_features_negative :: "int features" where
  "toy_features_negative =
     toy_features\<lparr>position :=
       \<lparr>shape = [1, 6, 2], elems = [0, 1, 2, 3, 4, 5, 6, 7, 8, - 9, 10, 11]\<rparr>\<rparr>"

definition toy_metadata :: "int json" where
  "toy_metadata = JDict [(''dim'', JInt 2)]"

definition toy_dataset :: "int features list" where
  "toy_dataset = [toy_features, toy_features_negative, toy_features_longer]"

definition toy_record :: "int json" where
  "toy_record =
     JDict [(''initial_positions'',
             JList [JList [JList [JFloat 0, JFloat 1], JList [JFloat 2, JFloat 3],
                           JList [JFloat 4, JFloat 5], JList [JFloat 6, JFloat 7],
                           JList [JFloat 8, JFloat 9]]]),
            (''predicted_rollout'',
             JList [JList [JList [JFloat 23, JFloat 24]], JList [JList [JFloat 44, JFloat 45]]]),
            (''particle_types'', JList [JInt 0]),
            (''global_context'',
             JList [JList [JFloat 1], JList [JFloat 2], JList [JFloat 3], JList [JFloat 4],
                    JList [JFloat 5], JList [JFloat 6], JList [JFloat 7]]),
            (''metadata'', toy_metadata)]"


definition toy_window_negative :: "int tensor" where
  "toy_window_negative = \<lparr>shape = [1, 5, 2], elems = [0, 1, 2, 3, 4, 5, 6, 7, 8, - 9]\<rparr>"

section \<open>Properties\<close>

subsection \<open>Sequencing and loops\<close>

lemma and_then_Inl [simp]: "and_then (Inl e) f = Inl e"
  by (simp add: and_then_def)

lemma and_then_Inr [simp]: "and_then (Inr x) f = f x"
  by (simp add: and_then_def)

lemma and_then_eq_Inr: "and_then m f = Inr y \<longleftrightarrow> (\<exists>x. m = Inr x \<and> f x = Inr y)"
  by (cases m) simp_all

lemma for_steps_append:
  "for_steps body (xs @ ys) s = and_then (for_steps body xs s) (for_steps body ys)"
proof (induction xs arbitrary: s)
  case Nil
  show ?case by simp
next
  case (Cons k ks)
  show ?case by (cases "body k s") (simp_all add: Cons.IH)
qed

lemma for_steps_snoc:
  "for_steps body [0..<Suc n] s = and_then (for_steps body [0..<n] s) (body n)"
  by (simp add: for_steps_append and_then_def split: sum.splits)

lemma INPUT_SEQUENCE_LENGTH_pos: "0 < INPUT_SEQUENCE_LENGTH"
  by (simp add: INPUT_SEQUENCE_LENGTH_def)

subsection \<open>Blocks of a tensor\<close>

lemma length_rows [simp]: "length (rows n k xs) = n"
  by (induction n arbitrary: xs) simp_all

lemma rows_one [simp]: "rows (Suc 0) k xs = [take k xs]"
  by simp

lemma rows_block_length:
  "n * k \<le> length xs \<Longrightarrow> r \<in> set (rows n k xs) \<Longrightarrow> length r = k"
proof (induction n arbitrary: xs)
  case 0
  then show ?case by simp
next
  case (Suc n)
  from Suc.prems(1) have len: "k \<le> length xs" "n * k \<le> length (drop k xs)" by simp_all
  from Suc.prems(2) have "r = take k xs \<or> r \<in> set (rows n k (drop k xs))" by simp
  then show ?case
  proof
    assume "r = take k xs"
    with len(1) show ?thesis by simp
  next
    assume "r \<in> set (rows n k (drop k xs))"
    with len(2) show ?thesis by (rule Suc.IH)
  qed
qed

lemma concat_rows: "concat (rows n k xs) = take (n * k) xs"
proof (induction n arbitrary: xs)
  case 0
  show ?case by simp
next
  case (Suc n)
  have "take k xs @ take (n * k) (drop k xs) = take (k + n * k) xs"
    by (simp add: take_add)
  with Suc show ?case by simp
qed

lemma rows_concat:
  "length yss = n \<Longrightarrow> \<forall>ys\<in>set yss. length ys = k \<Longrightarrow> rows n k (concat yss @ zs) = yss"
proof (induction yss arbitrary: n)
  case Nil
  then show ?case by simp
next
  case (Cons ys yss)
  then obtain m where "n = Suc m" "length yss = m" by (cases n) auto
  with Cons show ?case by simp
qed

lemma length_concat_map:
  "\<forall>r\<in>set rs. length (f r) = q \<Longrightarrow> length (concat (map f rs)) = length rs * q"
  by (induction rs) simp_all

lemma wf_rows_block:
  assumes "length xs = n * k" and "r \<in> set (rows n k xs)"
  shows "length r = k"
  using rows_block_length [of n k xs r] assms by simp

lemma slice1_Inr:
  assumes "shape t = n # m # rest"
  shows "slice1 lo hi t =
           Inr \<lparr>shape = n # ((case hi of None \<Rightarrow> m | Some h \<Rightarrow> min h m) - min lo m) # rest,
                elems = concat (map (\<lambda>r. take (((case hi of None \<Rightarrow> m | Some h \<Rightarrow> min h m) - min lo m) * prod_list rest)
                                              (drop (min lo m * prod_list rest) r))
                                    (rows n (m * prod_list rest) (elems t)))\<rparr>"
  using assms by (simp add: slice1_def Let_def)

lemma slice1_wf:
  assumes "well_formed t" and "slice1 lo hi t = Inr u"
  shows "well_formed u"
proof -
  from assms(2) obtain n m rest where sh: "shape t = n # m # rest"
    by (auto simp: slice1_def split: list.splits)
  define stop where "stop = (case hi of None \<Rightarrow> m | Some h \<Rightarrow> min h m)"
  define start where "start = min lo m"
  define inner where "inner = prod_list rest"
  have stop: "stop \<le> m" by (simp add: stop_def split: option.splits)
  from assms(1) sh have len: "length (elems t) = n * (m * inner)"
    by (simp add: well_formed_def inner_def)
  have u: "u = \<lparr>shape = n # (stop - start) # rest,
               elems = concat (map (\<lambda>r. take ((stop - start) * inner) (drop (start * inner) r))
                                   (rows n (m * inner) (elems t)))\<rparr>"
    using assms(2) by (simp add: slice1_Inr [OF sh] stop_def start_def inner_def)
  from stop have "stop - start \<le> m - start" by (rule diff_le_mono)
  then have "(stop - start) * inner \<le> (m - start) * inner" by (rule mult_le_mono1)
  then have le: "(stop - start) * inner \<le> m * inner - start * inner"
    by (simp add: diff_mult_distrib)
  have "\<forall>r \<in> set (rows n (m * inner) (elems t)).
          length (take ((stop - start) * inner) (drop (start * inner) r)) = (stop - start) * inner"
    using wf_rows_block [OF len] le by simp
  then have "length (concat (map (\<lambda>r. take ((stop - start) * inner) (drop (start * inner) r))
                                   (rows n (m * inner) (elems t))))
               = length (rows n (m * inner) (elems t)) * ((stop - start) * inner)"
    by (rule length_concat_map)
  then have "length (elems u) = n * ((stop - start) * inner)"
    by (simp only: u tensor.select_convs length_rows)
  then show ?thesis by (simp add: well_formed_def u inner_def)
qed

lemma select1_wf:
  assumes "well_formed t" and "select1 i t = Inr u"
  shows "well_formed u"
proof -
  from assms(2) obtain n m rest where sh: "shape t = n # m # rest"
    by (auto simp: select1_def split: list.splits)
  define j where "j = (if i < 0 then int m + i else i)"
  define inner where "inner = prod_list rest"
  from assms(2) sh have j: "0 \<le> j" "j < int m"
    by (auto simp: select1_def Let_def j_def split: if_splits)
  from assms(1) sh have len: "length (elems t) = n * (m * inner)"
    by (simp add: well_formed_def inner_def)
  have u: "u = \<lparr>shape = n # rest,
               elems = concat (map (\<lambda>r. take inner (drop (nat j * inner) r))
                                   (rows n (m * inner) (elems t)))\<rparr>"
    using assms(2) sh j by (simp add: select1_def Let_def j_def inner_def)
  from j have "Suc (nat j) \<le> m" by linarith
  then have "Suc (nat j) * inner \<le> m * inner" by (rule mult_le_mono1)
  then have le: "inner \<le> m * inner - nat j * inner" by simp
  have "\<forall>r \<in> set (rows n (m * inner) (elems t)).
          length (take inner (drop (nat j * inner) r)) = inner"
    using wf_rows_block [OF len] le by simp
  then have "length (concat (map (\<lambda>r. take inner (drop (nat j * inner) r))
                                   (rows n (m * inner) (elems t))))
               = length (rows n (m * inner) (elems t)) * inner"
    by (rule length_concat_map)
  then have "length (elems u) = n * inner"
    by (simp only: u tensor.select_convs length_rows)
  then show ?thesis by (simp add: well_formed_def u inner_def)
qed

lemma squeeze1_wf:
  assumes "well_formed t" and "squeeze1 t = Inr u"
  shows "well_formed u"
  using assms by (auto simp: squeeze1_def well_formed_def split: list.splits if_splits)

lemma unsqueeze1_Inr:
  assumes "unsqueeze1 t = Inr u"
  shows "\<exists>n rest. shape t = n # rest \<and> u = t\<lparr>shape := n # 1 # rest\<rparr>"
  using assms by (auto simp: unsqueeze1_def split: list.splits)


lemma map2_append_blocks:
  assumes "length as = length bs"
    and "\<forall>a\<in>set as. length a = q" and "\<forall>b\<in>set bs. length b = k"
  shows "\<forall>z\<in>set (map2 (@) as bs). length z = q + k"
  using assms by (induction as bs rule: list_induct2) simp_all

lemma map2_append_older:
  assumes "length as = length bs" and "\<forall>a\<in>set as. length a = q"
  shows "map (\<lambda>r. take q r) (map2 (@) as bs) = as"
  using assms by (induction as bs rule: list_induct2) simp_all

lemma map2_append_newest:
  assumes "length as = length bs"
    and "\<forall>a\<in>set as. length a = q" and "\<forall>b\<in>set bs. length b = k"
  shows "map (\<lambda>r. take k (drop q r)) (map2 (@) as bs) = bs"
  using assms by (induction as bs rule: list_induct2) simp_all

lemma cat1_newest:
  assumes a: "shape a = n # p # rest" "well_formed a"
    and b: "shape b = n' # 1 # rest'" "well_formed b"
    and c: "cat a b 1 = Inr c"
  shows "n' = n \<and> rest' = rest \<and> shape c = n # Suc p # rest \<and> well_formed c
         \<and> select1 (- 1) c = Inr \<lparr>shape = n # rest, elems = elems b\<rparr>
         \<and> slice1 0 (Some p) c = Inr a"
proof -
  define inner where "inner = prod_list rest"
  from c a(1) b(1) have eq: "n' = n" "rest' = rest"
    by (auto simp: cat_def split: if_splits)
  define as where "as = rows n (p * inner) (elems a)"
  define bs where "bs = rows n inner (elems b)"
  from c a(1) b(1) eq have cc: "c = \<lparr>shape = n # Suc p # rest, elems = concat (map2 (@) as bs)\<rparr>"
    by (auto simp: cat_def as_def bs_def inner_def split: if_splits)
  from a have la: "length (elems a) = n * (p * inner)" by (simp add: well_formed_def inner_def)
  from b eq have lb: "length (elems b) = n * inner" by (simp add: well_formed_def inner_def)
  have ba: "\<forall>x\<in>set as. length x = p * inner"
    unfolding as_def using rows_block_length [of n "p * inner" "elems a"] la by simp
  have bb: "\<forall>x\<in>set bs. length x = inner"
    unfolding bs_def using rows_block_length [of n inner "elems b"] lb by simp
  have ll: "length as = length bs" by (simp add: as_def bs_def)
  have bz: "\<forall>z\<in>set (map2 (@) as bs). length z = p * inner + inner"
    using ll ba bb by (rule map2_append_blocks)
  have ln: "length as = n" "length bs = n" by (simp_all add: as_def bs_def)
  have lz: "length (map2 (@) as bs) = n" by (simp add: ln)
  have "length (concat (map (\<lambda>z. z) (map2 (@) as bs))) = length (map2 (@) as bs) * (p * inner + inner)"
    using bz by (intro length_concat_map) simp
  then have lc: "length (elems c) = n * (Suc p * inner)"
    by (simp add: cc ln del: length_concat)
  then have wfc: "well_formed c" by (simp add: well_formed_def cc inner_def)
  have rz: "rows n (inner + p * inner) (concat (map2 (@) as bs)) = map2 (@) as bs"
    using rows_concat [OF lz, of "inner + p * inner" "[]"] bz by (simp add: add.commute)
  have "concat bs = elems b"
    by (simp add: bs_def concat_rows lb)
  then have "select1 (- 1) c = Inr \<lparr>shape = n # rest, elems = elems b\<rparr>"
    by (simp add: select1_def cc Let_def inner_def [symmetric] rz
        map2_append_newest [OF ll ba bb] del: map_map)
  moreover have "concat as = elems a"
    by (simp add: as_def concat_rows la)
  then have "slice1 0 (Some p) c = Inr \<lparr>shape = n # p # rest, elems = elems a\<rparr>"
    by (simp add: slice1_def cc Let_def inner_def [symmetric] rz
        map2_append_older [OF ll ba] del: map_map)
  then have "slice1 0 (Some p) c = Inr a"
    using a(1) by simp
  ultimately show ?thesis using eq cc wfc by simp
qed

subsection \<open>The context of a step\<close>

lemma read_step_context_shape:
  assumes "shape g = L # rest"
  shows "read_step_context g k =
           Inr \<lparr>shape = min (k + INPUT_SEQUENCE_LENGTH) L # rest,
                elems = take (min (k + INPUT_SEQUENCE_LENGTH) L * prod_list rest) (elems g)\<rparr>"
  using assms by (simp add: read_step_context_def slice0_to_def Let_def nat_add_distrib)

lemma context_step_in_range:
  fixes g :: "('a::zero) tensor"
  assumes "shape g = [L, 1]" and "k + INPUT_SEQUENCE_LENGTH < L"
  shows "context_step g k =
           Inr \<lparr>shape = [1, L - 1],
                elems = take (k + INPUT_SEQUENCE_LENGTH) (elems g)
                          @ replicate (L - 1 - (k + INPUT_SEQUENCE_LENGTH)) 0\<rparr>"
proof -
  have pad: "nat (int L - (int k + int INPUT_SEQUENCE_LENGTH) - 1) = L - Suc (k + INPUT_SEQUENCE_LENGTH)"
    using assms(2) by linarith
  have total: "k + INPUT_SEQUENCE_LENGTH + (L - Suc (k + INPUT_SEQUENCE_LENGTH)) = L - Suc 0"
    using assms(2) by linarith
  show ?thesis
    using assms INPUT_SEQUENCE_LENGTH_pos
    by (simp add: context_step_def read_step_context_def zero_pad_def slice0_to_def shape0_def
        zeros_col_def cat_def reshape_row_def Let_def min_def nat_add_distrib pad total)
qed

lemma context_step_out_of_range:
  fixes g :: "('a::zero) tensor"
  assumes "shape g = L # rest" and "L \<le> k + INPUT_SEQUENCE_LENGTH"
  shows "context_step g k = Inl RuntimeError"
  using assms
  by (simp add: context_step_def read_step_context_def zero_pad_def slice0_to_def shape0_def
      zeros_col_def Let_def min_def nat_add_distrib)

lemma mem_range_py: "k \<in> set (range_py (int L - int W)) \<longleftrightarrow> k + W < L"
  by (auto simp: range_py_def)

subsection \<open>The context vector handed to the simulator\<close>

text \<open>
  Claim C1. With a context of \<open>L\<close> values (a column, shape \<open>[L, 1]\<close>), the call of
  \<^verbatim>\<open>model.inference\<close> at step \<open>k\<close> of the loop receives as \<^verbatim>\<open>global_context\<close> one row of
  length \<open>L - 1\<close>: the first \<open>k + INPUT_SEQUENCE_LENGTH\<close> values of the context followed by
  \<open>L - 1 - (k + INPUT_SEQUENCE_LENGTH)\<close> zeros; the other arguments are the window and the
  features. The step raises what the simulator raises on these arguments and returns only
  when the simulator does. At the last step of the loop no zero is added.
\<close>

theorem context_vector_at_step:
  fixes g :: "('a::zero) tensor" and features :: "'a features"
  assumes "shape g = [L, 1]" and "well_formed g"
    and "k \<in> set (range_py (int L - int INPUT_SEQUENCE_LENGTH))"
  shows "\<exists>args.
           step_args features (Some g) k current = Inr args
           \<and> arg_global_context args =
               \<lparr>shape = [1, L - 1],
                elems = take (k + INPUT_SEQUENCE_LENGTH) (elems g)
                          @ replicate (L - 1 - (k + INPUT_SEQUENCE_LENGTH)) 0\<rparr>
           \<and> arg_position_sequence args = current
           \<and> arg_n_particles_per_example args = n_particles_per_example features
           \<and> arg_n_edges_per_example args = n_edges_per_example features
           \<and> arg_senders args = senders features
           \<and> arg_receivers args = receivers features
           \<and> arg_predict_length args = 1
           \<and> arg_particle_types args = particle_type features
           \<and> (\<forall>model mask st e.
                 current_positions st = current \<longrightarrow> inference model args = Inl e \<longrightarrow>
                 rollout_step model mask features (Some g) k st = Inl e)
           \<and> (\<forall>model mask st st'.
                 current_positions st = current \<longrightarrow>
                 rollout_step model mask features (Some g) k st = Inr st' \<longrightarrow>
                 (\<exists>out. inference model args = Inr out))
           \<and> length (take (k + INPUT_SEQUENCE_LENGTH) (elems g)) = k + INPUT_SEQUENCE_LENGTH
           \<and> length (elems (arg_global_context args)) = L - 1
           \<and> (Suc k = length (range_py (int L - int INPUT_SEQUENCE_LENGTH)) \<longrightarrow>
                L - 1 - (k + INPUT_SEQUENCE_LENGTH) = 0
                \<and> elems (arg_global_context args) = take (L - 1) (elems g))"
proof -
  let ?row = "\<lparr>shape = [1, L - 1],
               elems = take (k + INPUT_SEQUENCE_LENGTH) (elems g)
                         @ replicate (L - 1 - (k + INPUT_SEQUENCE_LENGTH)) (0::'a)\<rparr>"
  let ?args = "inference_args_of features current ?row"
  from assms(3) have less: "k + INPUT_SEQUENCE_LENGTH < L"
    by (simp add: mem_range_py)
  from assms(1,2) have len: "length (elems g) = L"
    by (simp add: well_formed_def)
  have args: "step_args features (Some g) k current = Inr ?args"
    by (simp add: step_args_def global_context_step_def to_device_def
        context_step_in_range [OF assms(1) less])
  have fields: "arg_global_context ?args = ?row" "arg_position_sequence ?args = current"
    "arg_n_particles_per_example ?args = n_particles_per_example features"
    "arg_n_edges_per_example ?args = n_edges_per_example features"
    "arg_senders ?args = senders features" "arg_receivers ?args = receivers features"
    "arg_predict_length ?args = 1" "arg_particle_types ?args = particle_type features"
    by (simp_all add: inference_args_of_def PREDICT_LENGTH_def)
  have fails: "\<forall>model mask st e.
                 current_positions st = current \<longrightarrow> inference model ?args = Inl e \<longrightarrow>
                 rollout_step model mask features (Some g) k st = Inl e"
    using args by (simp add: rollout_step_def)
  have returns: "\<forall>model mask st st'.
                 current_positions st = current \<longrightarrow>
                 rollout_step model mask features (Some g) k st = Inr st' \<longrightarrow>
                 (\<exists>out. inference model ?args = Inr out)"
    using args by (auto simp: rollout_step_def and_then_eq_Inr)
  have l1: "length (take (k + INPUT_SEQUENCE_LENGTH) (elems g)) = k + INPUT_SEQUENCE_LENGTH"
    using less len by simp
  have l2: "length (elems (arg_global_context ?args)) = L - 1"
    using less len by (simp add: inference_args_of_def)
  have final: "Suc k = length (range_py (int L - int INPUT_SEQUENCE_LENGTH)) \<longrightarrow>
                L - 1 - (k + INPUT_SEQUENCE_LENGTH) = 0
                \<and> elems (arg_global_context ?args) = take (L - 1) (elems g)"
  proof
    assume "Suc k = length (range_py (int L - int INPUT_SEQUENCE_LENGTH))"
    then have "k + INPUT_SEQUENCE_LENGTH = L - 1" using less
      by (simp add: range_py_def)
    then show "L - 1 - (k + INPUT_SEQUENCE_LENGTH) = 0
                \<and> elems (arg_global_context ?args) = take (L - 1) (elems g)"
      by (simp add: inference_args_of_def)
  qed
  show ?thesis
    apply (rule exI [of _ ?args])
    apply (intro conjI)
    apply (rule args)
    apply (rule fields(1))
    apply (rule fields(2))
    apply (rule fields(3))
    apply (rule fields(4))
    apply (rule fields(5))
    apply (rule fields(6))
    apply (rule fields(7))
    apply (rule fields(8))
    apply (rule fails)
    apply (rule returns)
    apply (rule l1)
    apply (rule l2)
    apply (rule final)
    done
qed

theorem context_vector_at_step_witness:
  "shape toy_context = [7, 1] \<and> well_formed toy_context
   \<and> 0 \<in> set (range_py (int 7 - int INPUT_SEQUENCE_LENGTH))
   \<and> 1 \<in> set (range_py (int 7 - int INPUT_SEQUENCE_LENGTH))
   \<and> step_args toy_features (Some toy_context) 0 toy_window =
       Inr \<lparr>arg_position_sequence = toy_window,
            arg_n_particles_per_example = \<lparr>shape = [1], elems = [1]\<rparr>,
            arg_n_edges_per_example = \<lparr>shape = [1], elems = [0]\<rparr>,
            arg_senders = \<lparr>shape = [0], elems = []\<rparr>,
            arg_receivers = \<lparr>shape = [0], elems = []\<rparr>,
            arg_predict_length = 1,
            arg_particle_types = \<lparr>shape = [1], elems = [0]\<rparr>,
            arg_global_context = \<lparr>shape = [1, 6], elems = [1, 2, 3, 4, 5, 0]\<rparr>\<rparr>
   \<and> (\<exists>args. step_args toy_features (Some toy_context) 1 toy_window = Inr args
          \<and> arg_global_context args = \<lparr>shape = [1, 6], elems = [1, 2, 3, 4, 5, 6]\<rparr>
          \<and> arg_position_sequence args = toy_window)"
proof -
  have s: "shape toy_context = [7, 1]" by (simp add: toy_context_def)
  have w: "well_formed toy_context" by (simp add: toy_context_def well_formed_def)
  have r0: "0 \<in> set (range_py (int 7 - int INPUT_SEQUENCE_LENGTH))"
    by (simp add: range_py_def INPUT_SEQUENCE_LENGTH_def)
  have r1: "1 \<in> set (range_py (int 7 - int INPUT_SEQUENCE_LENGTH))"
    by (simp add: range_py_def INPUT_SEQUENCE_LENGTH_def)
  have e0: "step_args toy_features (Some toy_context) 0 toy_window =
       Inr \<lparr>arg_position_sequence = toy_window,
            arg_n_particles_per_example = \<lparr>shape = [1], elems = [1]\<rparr>,
            arg_n_edges_per_example = \<lparr>shape = [1], elems = [0]\<rparr>,
            arg_senders = \<lparr>shape = [0], elems = []\<rparr>,
            arg_receivers = \<lparr>shape = [0], elems = []\<rparr>,
            arg_predict_length = 1,
            arg_particle_types = \<lparr>shape = [1], elems = [0]\<rparr>,
            arg_global_context = \<lparr>shape = [1, 6], elems = [1, 2, 3, 4, 5, 0]\<rparr>\<rparr>"
    by code_simp
  from context_vector_at_step [OF s w r1, of toy_features toy_window]
  obtain args where
    a: "step_args toy_features (Some toy_context) 1 toy_window = Inr args"
    and b: "arg_global_context args =
            \<lparr>shape = [1, 7 - 1],
             elems = take (1 + INPUT_SEQUENCE_LENGTH) (elems toy_context)
                       @ replicate (7 - 1 - (1 + INPUT_SEQUENCE_LENGTH)) 0\<rparr>"
    and c: "arg_position_sequence args = toy_window"
    by blast
  from b have "arg_global_context args = \<lparr>shape = [1, 6], elems = [1, 2, 3, 4, 5, 6]\<rparr>"
    by (simp add: toy_context_def INPUT_SEQUENCE_LENGTH_def)
  with a c have "\<exists>args. step_args toy_features (Some toy_context) 1 toy_window = Inr args
          \<and> arg_global_context args = \<lparr>shape = [1, 6], elems = [1, 2, 3, 4, 5, 6]\<rparr>
          \<and> arg_position_sequence args = toy_window"
    by blast
  with s w r0 r1 e0 show ?thesis by blast
qed

text \<open>
  Claim C7. With \<open>num_steps = L - INPUT_SEQUENCE_LENGTH\<close>, at every step \<open>k\<close> of the loop the number
  of rows asked of \<^verbatim>\<open>torch.zeros\<close> is \<open>(L - 1) - (k + INPUT_SEQUENCE_LENGTH)\<close> and is not
  negative, so the call returns. For a step where that number would be negative, the call
  raises and with it the construction of the context: nothing is cut to fit.
\<close>

theorem zero_padding_never_negative:
  fixes g :: "('a::zero) tensor"
  assumes "shape g = L # rest"
  shows "(\<forall>k \<in> set (range_py (int L - int INPUT_SEQUENCE_LENGTH)).
            0 \<le> (int L - 1) - (int k + int INPUT_SEQUENCE_LENGTH)
            \<and> (\<exists>read. read_step_context g k = Inr read
                 \<and> zero_pad g read =
                     Inr \<lparr>shape = [nat ((int L - 1) - (int k + int INPUT_SEQUENCE_LENGTH)), 1],
                          elems = replicate (nat ((int L - 1) - (int k + int INPUT_SEQUENCE_LENGTH))) 0\<rparr>))
         \<and> (\<forall>k. (int L - 1) - (int k + int INPUT_SEQUENCE_LENGTH) < 0 \<longrightarrow>
              (\<exists>read. read_step_context g k = Inr read \<and> zero_pad g read = Inl RuntimeError)
              \<and> context_step g k = Inl RuntimeError)"
proof (intro conjI ballI allI impI)
  fix k assume "k \<in> set (range_py (int L - int INPUT_SEQUENCE_LENGTH))"
  then have less: "k + INPUT_SEQUENCE_LENGTH < L" by (simp add: mem_range_py)
  then show "0 \<le> (int L - 1) - (int k + int INPUT_SEQUENCE_LENGTH)" by linarith
  from less have m: "min (k + INPUT_SEQUENCE_LENGTH) L = k + INPUT_SEQUENCE_LENGTH" by simp
  have "zero_pad g \<lparr>shape = (k + INPUT_SEQUENCE_LENGTH) # rest,
                elems = take ((k + INPUT_SEQUENCE_LENGTH) * prod_list rest) (elems g)\<rparr> =
          Inr \<lparr>shape = [nat ((int L - 1) - (int k + int INPUT_SEQUENCE_LENGTH)), 1],
               elems = replicate (nat ((int L - 1) - (int k + int INPUT_SEQUENCE_LENGTH))) 0\<rparr>"
    using assms less by (simp add: zero_pad_def shape0_def zeros_col_def algebra_simps)
  then show "\<exists>read. read_step_context g k = Inr read
                 \<and> zero_pad g read =
                     Inr \<lparr>shape = [nat ((int L - 1) - (int k + int INPUT_SEQUENCE_LENGTH)), 1],
                          elems = replicate (nat ((int L - 1) - (int k + int INPUT_SEQUENCE_LENGTH))) 0\<rparr>"
    by (simp add: read_step_context_shape [OF assms] m)
next
  fix k assume neg: "(int L - 1) - (int k + int INPUT_SEQUENCE_LENGTH) < 0"
  then have ge: "L \<le> k + INPUT_SEQUENCE_LENGTH" by linarith
  then have m: "min (k + INPUT_SEQUENCE_LENGTH) L = L" by simp
  have "zero_pad g \<lparr>shape = L # rest, elems = take (L * prod_list rest) (elems g)\<rparr> = Inl RuntimeError"
    using assms by (simp add: zero_pad_def shape0_def zeros_col_def)
  then show "\<exists>read. read_step_context g k = Inr read \<and> zero_pad g read = Inl RuntimeError"
    by (simp add: read_step_context_shape [OF assms] m)
  show "context_step g k = Inl RuntimeError"
    using assms ge by (rule context_step_out_of_range)
qed

theorem zero_padding_never_negative_witness:
  "shape toy_context = 7 # [1]
   \<and> 0 \<in> set (range_py (int 7 - int INPUT_SEQUENCE_LENGTH))
   \<and> read_step_context toy_context 0 = Inr \<lparr>shape = [5, 1], elems = [1, 2, 3, 4, 5]\<rparr>
   \<and> zero_pad toy_context \<lparr>shape = [5, 1], elems = [1, 2, 3, 4, 5]\<rparr> =
       Inr \<lparr>shape = [1, 1], elems = [0]\<rparr>
   \<and> (int 7 - 1) - (int 2 + int INPUT_SEQUENCE_LENGTH) < 0
   \<and> context_step toy_context 2 = Inl RuntimeError"
proof -
  have s: "shape toy_context = 7 # [1]" by (simp add: toy_context_def)
  have r: "0 \<in> set (range_py (int 7 - int INPUT_SEQUENCE_LENGTH))"
    by (simp add: range_py_def INPUT_SEQUENCE_LENGTH_def)
  have n: "(int 7 - 1) - (int 2 + int INPUT_SEQUENCE_LENGTH) < 0"
    by (simp add: INPUT_SEQUENCE_LENGTH_def)
  have e: "read_step_context toy_context 0 = Inr \<lparr>shape = [5, 1], elems = [1, 2, 3, 4, 5]\<rparr>"
    by (simp add: read_step_context_def slice0_to_def toy_context_def INPUT_SEQUENCE_LENGTH_def)
  note t = zero_padding_never_negative [OF s]
  from t r have "\<exists>read. read_step_context toy_context 0 = Inr read
      \<and> zero_pad toy_context read =
          Inr \<lparr>shape = [nat ((int 7 - 1) - (int 0 + int INPUT_SEQUENCE_LENGTH)), 1],
               elems = replicate (nat ((int 7 - 1) - (int 0 + int INPUT_SEQUENCE_LENGTH))) 0\<rparr>"
    by blast
  with e have z: "zero_pad toy_context \<lparr>shape = [5, 1], elems = [1, 2, 3, 4, 5]\<rparr> =
       Inr \<lparr>shape = [1, 1], elems = [0]\<rparr>"
    by (simp add: INPUT_SEQUENCE_LENGTH_def numeral_2_eq_2)
  from t n have c: "context_step toy_context 2 = Inl RuntimeError"
    by blast
  from s r e z n c show ?thesis by blast
qed


subsection \<open>The sliding window\<close>

lemma rollout_step_Inr:
  assumes "rollout_step model get_kinematic_mask features gc k st = Inr st'"
  shows "\<exists>args out first p rest newest window.
           step_args features gc k (current_positions st) = Inr args
           \<and> arg_position_sequence args = current_positions st
           \<and> inference model args = Inr out
           \<and> select1 0 out = Inr first \<and> squeeze1 first = Inr p
           \<and> slice1 1 None (current_positions st) = Inr rest
           \<and> unsqueeze1 p = Inr newest
           \<and> cat rest newest 1 = Inr window
           \<and> st' = st\<lparr>updated_predictions := updated_predictions st @ [p],
                       current_positions := window\<rparr>"
proof -
  from assms obtain args where
    args: "step_args features gc k (current_positions st) = Inr args"
    unfolding rollout_step_def and_then_eq_Inr by blast
  then have "arg_position_sequence args = current_positions st"
    unfolding step_args_def and_then_eq_Inr by (auto simp: inference_args_of_def)
  with assms args show ?thesis
    unfolding rollout_step_def Let_def and_then_eq_Inr by auto
qed

lemma window_step:
  assumes sh: "shape (current_positions st) = n # INPUT_SEQUENCE_LENGTH # rest"
    and wf: "well_formed (current_positions st)"
    and sim: "\<forall>args out. well_formed (arg_position_sequence args) \<longrightarrow> inference model args = Inr out \<longrightarrow> well_formed out"
    and step: "rollout_step model get_kinematic_mask features gc k st = Inr st'"
  shows "shape (current_positions st') = n # INPUT_SEQUENCE_LENGTH # rest
         \<and> well_formed (current_positions st')
         \<and> (\<exists>p. updated_predictions st' = updated_predictions st @ [p]
                \<and> select1 (- 1) (current_positions st') = Inr p)
         \<and> slice1 0 (Some (INPUT_SEQUENCE_LENGTH - 1)) (current_positions st')
             = slice1 1 None (current_positions st)"
proof -
  from rollout_step_Inr [OF step] obtain args out first p older newest window where
    args: "arg_position_sequence args = current_positions st"
    and call: "inference model args = Inr out"
    and first: "select1 0 out = Inr first" and p: "squeeze1 first = Inr p"
    and older: "slice1 1 None (current_positions st) = Inr older"
    and newest: "unsqueeze1 p = Inr newest"
    and window: "cat older newest 1 = Inr window"
    and st': "st' = st\<lparr>updated_predictions := updated_predictions st @ [p],
                       current_positions := window\<rparr>"
    by blast
  from sim call args wf have "well_formed out" by metis
  then have "well_formed first" using first by (rule select1_wf)
  then have wfp: "well_formed p" using p by (rule squeeze1_wf)
  from unsqueeze1_Inr [OF newest] obtain n' rest' where
    shp: "shape p = n' # rest'" and nw: "newest = p\<lparr>shape := n' # 1 # rest'\<rparr>"
    by blast
  from wfp shp nw have wfn: "well_formed newest" and shn: "shape newest = n' # 1 # rest'"
    by (simp_all add: well_formed_def)
  from older sh have sho: "shape older = n # (INPUT_SEQUENCE_LENGTH - 1) # rest"
    using INPUT_SEQUENCE_LENGTH_pos by (auto simp add: slice1_Inr [OF sh])
  from wf older have wfo: "well_formed older" by (rule slice1_wf)
  from cat1_newest [OF sho wfo shn wfn window] INPUT_SEQUENCE_LENGTH_pos
  have eq: "n' = n" "rest' = rest"
    and shw: "shape window = n # INPUT_SEQUENCE_LENGTH # rest"
    and wfw: "well_formed window"
    and last: "select1 (- 1) window = Inr \<lparr>shape = n # rest, elems = elems newest\<rparr>"
    and front: "slice1 0 (Some (INPUT_SEQUENCE_LENGTH - 1)) window = Inr older"
    by simp_all
  from last shp nw eq have "select1 (- 1) window = Inr p" by simp
  with shw wfw front older st' show ?thesis by simp
qed

lemma window_steps:
  assumes sim: "\<forall>args out. well_formed (arg_position_sequence args) \<longrightarrow> inference model args = Inr out \<longrightarrow> well_formed out"
    and sh: "shape (current_positions s0) = n # INPUT_SEQUENCE_LENGTH # rest"
    and wf: "well_formed (current_positions s0)"
    and run: "for_steps (rollout_step model get_kinematic_mask features gc) [0..<k] s0 = Inr st"
  shows "shape (current_positions st) = n # INPUT_SEQUENCE_LENGTH # rest \<and> well_formed (current_positions st)"
  using run
proof (induction k arbitrary: st)
  case 0
  with sh wf show ?case by simp
next
  case (Suc k)
  from Suc.prems obtain prev where
    prev: "for_steps (rollout_step model get_kinematic_mask features gc) [0..<k] s0 = Inr prev"
    and step: "rollout_step model get_kinematic_mask features gc k prev = Inr st"
    unfolding for_steps_snoc and_then_eq_Inr by blast
  from Suc.IH [OF prev] have "shape (current_positions prev) = n # INPUT_SEQUENCE_LENGTH # rest"
    and "well_formed (current_positions prev)" by simp_all
  from window_step [OF this sim step] show ?case by simp
qed

lemma initial_window:
  assumes "shape pos = n # T # rest" and "well_formed pos" and "INPUT_SEQUENCE_LENGTH \<le> T"
    and "slice1 0 (Some INPUT_SEQUENCE_LENGTH) pos = Inr initial"
  shows "shape initial = n # INPUT_SEQUENCE_LENGTH # rest \<and> well_formed initial"
proof -
  from assms(4) have "shape initial = n # INPUT_SEQUENCE_LENGTH # rest"
    using assms(3) by (auto simp add: slice1_Inr [OF assms(1)])
  moreover from assms(2,4) have "well_formed initial" by (rule slice1_wf)
  ultimately show ?thesis by simp
qed

text \<open>
  Claim C2. After every step of the loop that has run, the window \<^verbatim>\<open>current_positions\<close>
  holds \<open>INPUT_SEQUENCE_LENGTH\<close> snapshots along its second axis; its last snapshot is the
  prediction appended to \<^verbatim>\<open>updated_predictions\<close> at that step, and the snapshots before it
  are those of the window before the step without the oldest. The example's position
  sequence has at least \<open>INPUT_SEQUENCE_LENGTH\<close> snapshots, and the simulator returns
  tensors.
\<close>

theorem window_invariant:
  assumes pos: "shape (position features) = n # T # rest" "well_formed (position features)"
      "INPUT_SEQUENCE_LENGTH \<le> T"
    and sim: "\<forall>args out. well_formed (arg_position_sequence args) \<longrightarrow> inference model args = Inr out \<longrightarrow> well_formed out"
    and initial: "slice1 0 (Some INPUT_SEQUENCE_LENGTH) (position features) = Inr initial"
    and run: "for_steps (rollout_step model get_kinematic_mask features gc) [0..<Suc k]
                (rollout_init initial) = Inr st"
  shows "shape (current_positions st) = n # INPUT_SEQUENCE_LENGTH # rest
         \<and> (\<exists>prev p.
               for_steps (rollout_step model get_kinematic_mask features gc) [0..<k]
                 (rollout_init initial) = Inr prev
               \<and> updated_predictions st = updated_predictions prev @ [p]
               \<and> select1 (- 1) (current_positions st) = Inr p
               \<and> slice1 0 (Some (INPUT_SEQUENCE_LENGTH - 1)) (current_positions st)
                   = slice1 1 None (current_positions prev))"
proof -
  from run obtain prev where
    prev: "for_steps (rollout_step model get_kinematic_mask features gc) [0..<k]
             (rollout_init initial) = Inr prev"
    and step: "rollout_step model get_kinematic_mask features gc k prev = Inr st"
    unfolding for_steps_snoc and_then_eq_Inr by blast
  from initial_window [OF pos initial]
  have "shape (current_positions (rollout_init initial)) = n # INPUT_SEQUENCE_LENGTH # rest"
    and "well_formed (current_positions (rollout_init initial))"
    by (simp_all add: rollout_init_def)
  from window_steps [OF sim this prev]
  have "shape (current_positions prev) = n # INPUT_SEQUENCE_LENGTH # rest"
    and "well_formed (current_positions prev)" by simp_all
  from window_step [OF this sim step] prev show ?thesis by blast
qed


lemma toy_inference_wf:
  "\<forall>args out. well_formed (arg_position_sequence args) \<longrightarrow> inference toy_model args = Inr out \<longrightarrow> well_formed out"
proof (intro allI impI)
  fix args out
  assume w: "well_formed (arg_position_sequence args)" and r: "inference toy_model args = Inr out"
  from r obtain newest t where
    n: "select1 (- 1) (arg_position_sequence args) = Inr newest"
    and t: "unsqueeze1 newest = Inr t"
    and out: "out = t\<lparr>elems := map (\<lambda>x. x + sum_list (elems (arg_global_context args))) (elems t)\<rparr>"
    by (auto simp: toy_model_def toy_inference_def and_then_eq_Inr split: if_splits)
  from w n have "well_formed newest" by (rule select1_wf)
  with unsqueeze1_Inr [OF t] have "well_formed t" by (auto simp: well_formed_def)
  with out show "well_formed out" by (simp add: well_formed_def)
qed

lemma toy_first_step:
  "for_steps (rollout_step toy_model toy_mask toy_features (Some toy_context)) [0..<Suc 0]
     (rollout_init toy_window) = Inr toy_after_first_step"
  by code_simp

theorem window_invariant_witness:
  "shape (position toy_features) = 1 # 6 # [2] \<and> well_formed (position toy_features)
   \<and> INPUT_SEQUENCE_LENGTH \<le> 6
   \<and> slice1 0 (Some INPUT_SEQUENCE_LENGTH) (position toy_features) = Inr toy_window
   \<and> for_steps (rollout_step toy_model toy_mask toy_features (Some toy_context)) [0..<Suc 0]
        (rollout_init toy_window) = Inr toy_after_first_step
   \<and> shape (current_positions toy_after_first_step) = [1, 5, 2]
   \<and> updated_predictions toy_after_first_step = [\<lparr>shape = [1, 2], elems = [23, 24]\<rparr>]
   \<and> select1 (- 1) (current_positions toy_after_first_step) = Inr \<lparr>shape = [1, 2], elems = [23, 24]\<rparr>
   \<and> slice1 0 (Some (INPUT_SEQUENCE_LENGTH - 1)) (current_positions toy_after_first_step)
       = slice1 1 None toy_window"
proof -
  have h1: "shape (position toy_features) = 1 # 6 # [2]"
    by (simp add: toy_features_def toy_position_def)
  have h2: "well_formed (position toy_features)"
    by (simp add: toy_features_def toy_position_def well_formed_def)
  have h3: "INPUT_SEQUENCE_LENGTH \<le> 6"
    by (simp add: INPUT_SEQUENCE_LENGTH_def)
  have h4: "slice1 0 (Some INPUT_SEQUENCE_LENGTH) (position toy_features) = Inr toy_window"
    by code_simp
  note t = window_invariant [OF h1 h2 h3 toy_inference_wf h4 toy_first_step]
  from t obtain prev p where
    prev: "for_steps (rollout_step toy_model toy_mask toy_features (Some toy_context)) [0..<0]
             (rollout_init toy_window) = Inr prev"
    and p: "updated_predictions toy_after_first_step = updated_predictions prev @ [p]"
    and newest: "select1 (- 1) (current_positions toy_after_first_step) = Inr p"
    and older: "slice1 0 (Some (INPUT_SEQUENCE_LENGTH - 1)) (current_positions toy_after_first_step)
                  = slice1 1 None (current_positions prev)"
    by blast
  from prev have prev': "prev = rollout_init toy_window" by simp
  from p prev' have p': "p = \<lparr>shape = [1, 2], elems = [23, 24]\<rparr>"
    by (simp add: toy_after_first_step_def rollout_init_def)
  from t have "shape (current_positions toy_after_first_step) = [1, 5, 2]"
    by (simp add: INPUT_SEQUENCE_LENGTH_def)
  moreover have "updated_predictions toy_after_first_step = [\<lparr>shape = [1, 2], elems = [23, 24]\<rparr>]"
    by (simp add: toy_after_first_step_def)
  moreover from newest p'
  have "select1 (- 1) (current_positions toy_after_first_step) = Inr \<lparr>shape = [1, 2], elems = [23, 24]\<rparr>"
    by simp
  moreover from older prev'
  have "slice1 0 (Some (INPUT_SEQUENCE_LENGTH - 1)) (current_positions toy_after_first_step)
       = slice1 1 None toy_window"
    by (simp add: rollout_init_def)
  ultimately show ?thesis using h1 h2 h3 h4 toy_first_step by blast
qed

subsection \<open>The length and order of the trajectory\<close>

lemma for_steps_split:
  assumes "for_steps body [0..<n] s = Inr st" and "k \<le> n"
  shows "\<exists>sk. for_steps body [0..<k] s = Inr sk \<and> for_steps body [k..<n] sk = Inr st"
proof -
  from assms(2) have "[0..<n] = [0..<k] @ [k..<n]"
    by (metis le_add_diff_inverse upt_add_eq_append zero_le)
  with assms(1) show ?thesis
    by (simp add: for_steps_append and_then_eq_Inr)
qed

lemma rollout_step_frame:
  assumes "rollout_step model get_kinematic_mask features gc k st = Inr st'"
  shows "initial_positions st' = initial_positions st
         \<and> (\<exists>p. updated_predictions st' = updated_predictions st @ [p])"
  using rollout_step_Inr [OF assms] by auto

lemma for_steps_frame:
  assumes "for_steps (rollout_step model get_kinematic_mask features gc) ks s = Inr st"
  shows "initial_positions st = initial_positions s
         \<and> (\<exists>ps. length ps = length ks \<and> updated_predictions st = updated_predictions s @ ps)"
  using assms
proof (induction ks arbitrary: s)
  case Nil
  then show ?case by simp
next
  case (Cons k ks)
  from Cons.prems obtain s' where
    step: "rollout_step model get_kinematic_mask features gc k s = Inr s'"
    and rest: "for_steps (rollout_step model get_kinematic_mask features gc) ks s' = Inr st"
    by (auto simp: and_then_eq_Inr)
  from rollout_step_frame [OF step] obtain p where
    s': "initial_positions s' = initial_positions s" "updated_predictions s' = updated_predictions s @ [p]"
    by blast
  from Cons.IH [OF rest] obtain ps where
    "initial_positions st = initial_positions s'" "length ps = length ks"
    "updated_predictions st = updated_predictions s' @ ps"
    by blast
  with s' have "initial_positions st = initial_positions s \<and> length (p # ps) = length (k # ks)
      \<and> updated_predictions st = updated_predictions s @ (p # ps)"
    by simp
  then show ?case by blast
qed

lemma stack_Inr:
  assumes "stack ts = Inr u"
  shows "ts \<noteq> [] \<and> shape u = length ts # shape (hd ts) \<and> elems u = concat (map elems ts)"
  using assms by (auto simp: stack_def split: list.splits if_splits)

lemma rollout_loop_Inr:
  assumes "rollout_loop model get_kinematic_mask features = Inr (gc, st)"
  shows "\<exists>initial l.
           slice1 0 (Some INPUT_SEQUENCE_LENGTH) (position features) = Inr initial
           \<and> step_context features = Some gc
           \<and> shape0 gc = Inr l
           \<and> for_steps (rollout_step model get_kinematic_mask features (Some gc))
                (range_py (l - int INPUT_SEQUENCE_LENGTH)) (rollout_init initial) = Inr st"
  using assms unfolding rollout_loop_def Let_def and_then_eq_Inr
  by (auto simp: to_device_def split: option.splits)

lemma rollout_Inr:
  assumes "rollout model get_kinematic_mask features = Inr (initial, stacked, gc)"
  shows "\<exists>st. rollout_loop model get_kinematic_mask features = Inr (gc, st)
              \<and> stack (updated_predictions st) = Inr stacked
              \<and> initial = initial_positions st"
  using assms by (auto simp: rollout_def and_then_eq_Inr split: prod.splits)

text \<open>
  Claim C3. With a context of \<open>L\<close> values present, a rollout that reaches its end has run
  \<open>L - INPUT_SEQUENCE_LENGTH\<close> steps, and \<^verbatim>\<open>updated_predictions\<close> then holds that many
  snapshots, the one at index \<open>k\<close> being the prediction of step \<open>k\<close>; the stacked trajectory
  has that many entries along its first axis.
\<close>

theorem trajectory_length:
  assumes ctx: "step_context features = Some g" "shape g = L # rest"
    and finished: "rollout model get_kinematic_mask features = Inr (initial, stacked, gc)"
  shows "range_py (int L - int INPUT_SEQUENCE_LENGTH) = [0..<L - INPUT_SEQUENCE_LENGTH]
         \<and> int (length (range_py (int L - int INPUT_SEQUENCE_LENGTH))) = int L - int INPUT_SEQUENCE_LENGTH
         \<and> (\<exists>st. for_steps (rollout_step model get_kinematic_mask features (Some g))
                    (range_py (int L - int INPUT_SEQUENCE_LENGTH)) (rollout_init initial) = Inr st
                \<and> length (updated_predictions st) = L - INPUT_SEQUENCE_LENGTH
                \<and> stack (updated_predictions st) = Inr stacked
                \<and> (\<forall>k < L - INPUT_SEQUENCE_LENGTH.
                      \<exists>sk. for_steps (rollout_step model get_kinematic_mask features (Some g))
                             [0..<Suc k] (rollout_init initial) = Inr sk
                           \<and> updated_predictions st ! k = last (updated_predictions sk)))
         \<and> hd (shape stacked) = L - INPUT_SEQUENCE_LENGTH"
proof -
  let ?body = "rollout_step model get_kinematic_mask features (Some g)"
  let ?n = "L - INPUT_SEQUENCE_LENGTH"
  from rollout_Inr [OF finished] obtain st where
    loop: "rollout_loop model get_kinematic_mask features = Inr (gc, st)"
    and stacked: "stack (updated_predictions st) = Inr stacked"
    and initial: "initial = initial_positions st"
    by blast
  from rollout_loop_Inr [OF loop] ctx obtain initial0 where
    gc: "gc = g"
    and run0: "for_steps ?body (range_py (int L - int INPUT_SEQUENCE_LENGTH)) (rollout_init initial0) = Inr st"
    by (auto simp: shape0_def)
  from for_steps_frame [OF run0] initial have "initial0 = initial"
    by (simp add: rollout_init_def)
  with run0 have run: "for_steps ?body (range_py (int L - int INPUT_SEQUENCE_LENGTH)) (rollout_init initial) = Inr st"
    by simp
  have range: "range_py (int L - int INPUT_SEQUENCE_LENGTH) = [0..<?n]"
    by (simp add: range_py_def nat_diff_distrib')
  from for_steps_frame [OF run] have len: "length (updated_predictions st) = ?n"
    by (auto simp: range rollout_init_def)
  from stack_Inr [OF stacked] have "0 < length (updated_predictions st)"
    and "hd (shape stacked) = length (updated_predictions st)"
    by simp_all
  with len have pos: "0 < ?n" and hd: "hd (shape stacked) = ?n"
    by simp_all
  from pos have count: "int (length (range_py (int L - int INPUT_SEQUENCE_LENGTH))) = int L - int INPUT_SEQUENCE_LENGTH"
    by (simp add: range)
  have order: "\<forall>k < ?n. \<exists>sk. for_steps ?body [0..<Suc k] (rollout_init initial) = Inr sk
                           \<and> updated_predictions st ! k = last (updated_predictions sk)"
  proof (intro allI impI)
    fix k assume k: "k < ?n"
    then have "Suc k \<le> ?n" by simp
    with run range for_steps_split [of ?body ?n "rollout_init initial" st "Suc k"] obtain sk where
      sk: "for_steps ?body [0..<Suc k] (rollout_init initial) = Inr sk"
      and tail: "for_steps ?body [Suc k..<?n] sk = Inr st"
      by auto
    from for_steps_frame [OF sk] have lk: "length (updated_predictions sk) = Suc k"
      by (auto simp: rollout_init_def)
    from for_steps_frame [OF tail] obtain ps where "updated_predictions st = updated_predictions sk @ ps"
      by blast
    with lk have "updated_predictions st ! k = updated_predictions sk ! k"
      by (simp add: nth_append)
    also from lk have "\<dots> = last (updated_predictions sk)"
      by (metis diff_Suc_1 last_conv_nth length_0_conv nat.distinct(1))
    finally show "\<exists>sk. for_steps ?body [0..<Suc k] (rollout_init initial) = Inr sk
                           \<and> updated_predictions st ! k = last (updated_predictions sk)"
      using sk by blast
  qed
  from range count run len stacked order hd show ?thesis by blast
qed

lemma toy_rollout_eval:
  "rollout toy_model toy_mask toy_features = Inr (toy_window, toy_rollout, toy_context)"
  by code_simp

theorem trajectory_length_witness:
  "step_context toy_features = Some toy_context \<and> shape toy_context = 7 # [1]
   \<and> rollout toy_model toy_mask toy_features = Inr (toy_window, toy_rollout, toy_context)
   \<and> range_py (int 7 - int INPUT_SEQUENCE_LENGTH) = [0..<7 - INPUT_SEQUENCE_LENGTH]
   \<and> int (length (range_py (int 7 - int INPUT_SEQUENCE_LENGTH))) = int 7 - int INPUT_SEQUENCE_LENGTH
   \<and> hd (shape toy_rollout) = 7 - INPUT_SEQUENCE_LENGTH
   \<and> hd (shape toy_rollout) = 2"
proof -
  have h1: "step_context toy_features = Some toy_context" by (simp add: toy_features_def)
  have h2: "shape toy_context = 7 # [1]" by (simp add: toy_context_def)
  note t = trajectory_length [OF h1 h2 toy_rollout_eval]
  have "hd (shape toy_rollout) = 2" by (simp add: toy_rollout_def)
  with t h1 h2 toy_rollout_eval show ?thesis by blast
qed

text \<open>
  The rollout does reach its end when the shapes fit: positions of shape \<open>[N, T, D]\<close> with
  \<open>INPUT_SEQUENCE_LENGTH \<le> T\<close> and \<open>D \<noteq> 1\<close>, a context of shape \<open>[L, 1]\<close> longer than the window,
  and a simulator that answers a window of shape \<open>[N, INPUT_SEQUENCE_LENGTH, D]\<close> with
  predictions of shape \<open>[N, P, D]\<close>, \<open>P \<ge> 1\<close>. (With \<open>D = 1\<close> the \<^verbatim>\<open>squeeze(1)\<close> of line 254
  removes the coordinate axis and \<^verbatim>\<open>torch.cat\<close> of line 269 raises.)
\<close>

lemma rollout_step_completes:
  fixes features :: "('a::zero) features"
  assumes cur: "shape (current_positions st) = [N, INPUT_SEQUENCE_LENGTH, D]"
    and D: "D \<noteq> 1"
    and ctx: "shape g = [L, 1]" "k + INPUT_SEQUENCE_LENGTH < L"
    and sim: "\<forall>args. shape (arg_position_sequence args) = [N, INPUT_SEQUENCE_LENGTH, D] \<longrightarrow>
                (\<exists>out P. inference model args = Inr out \<and> shape out = [N, Suc P, D])"
  shows "\<exists>st' p. rollout_step model get_kinematic_mask features (Some g) k st = Inr st'
           \<and> shape (current_positions st') = [N, INPUT_SEQUENCE_LENGTH, D]
           \<and> shape p = [N, D]
           \<and> updated_predictions st' = updated_predictions st @ [p]"
proof -
  let ?row = "\<lparr>shape = [1, L - 1],
               elems = take (k + INPUT_SEQUENCE_LENGTH) (elems g)
                         @ replicate (L - 1 - (k + INPUT_SEQUENCE_LENGTH)) (0::'a)\<rparr>"
  let ?args = "inference_args_of features (current_positions st) ?row"
  have args: "step_args features (Some g) k (current_positions st) = Inr ?args"
    by (simp add: step_args_def global_context_step_def to_device_def
        context_step_in_range [OF ctx])
  have "shape (arg_position_sequence ?args) = [N, INPUT_SEQUENCE_LENGTH, D]"
    by (simp add: inference_args_of_def cur)
  with sim obtain out P where
    out: "inference model ?args = Inr out" and sh: "shape out = [N, Suc P, D]"
    by blast
  obtain first where first: "select1 0 out = Inr first" and shf: "shape first = [N, D]"
    using sh by (auto simp: select1_def Let_def)
  from shf D have p: "squeeze1 first = Inr first"
    by (simp add: squeeze1_def)
  obtain older where older: "slice1 1 None (current_positions st) = Inr older"
    and sho: "shape older = [N, INPUT_SEQUENCE_LENGTH - 1, D]"
    using INPUT_SEQUENCE_LENGTH_pos by (auto simp: slice1_Inr [OF cur])
  obtain newest where newest: "unsqueeze1 first = Inr newest" and shn: "shape newest = [N, 1, D]"
    using shf by (auto simp: unsqueeze1_def)
  obtain window where window: "cat older newest 1 = Inr window"
    and shw: "shape window = [N, INPUT_SEQUENCE_LENGTH, D]"
    using sho shn INPUT_SEQUENCE_LENGTH_pos by (auto simp: cat_def Let_def)
  let ?st' = "st\<lparr>updated_predictions := updated_predictions st @ [first],
                  current_positions := window\<rparr>"
  have "rollout_step model get_kinematic_mask features (Some g) k st = Inr ?st'"
    using args out first p older newest window by (simp add: rollout_step_def)
  with shw shf show ?thesis by auto
qed

lemma rollout_steps_complete:
  fixes features :: "('a::zero) features"
  assumes cur: "shape (current_positions s0) = [N, INPUT_SEQUENCE_LENGTH, D]"
    and preds: "list_all (\<lambda>p. shape p = [N, D]) (updated_predictions s0)"
    and D: "D \<noteq> 1"
    and ctx: "shape g = [L, 1]"
    and sim: "\<forall>args. shape (arg_position_sequence args) = [N, INPUT_SEQUENCE_LENGTH, D] \<longrightarrow>
                (\<exists>out P. inference model args = Inr out \<and> shape out = [N, Suc P, D])"
    and n: "n + INPUT_SEQUENCE_LENGTH \<le> L"
  shows "\<exists>st. for_steps (rollout_step model get_kinematic_mask features (Some g)) [0..<n] s0 = Inr st
           \<and> shape (current_positions st) = [N, INPUT_SEQUENCE_LENGTH, D]
           \<and> list_all (\<lambda>p. shape p = [N, D]) (updated_predictions st)"
  using n
proof (induction n)
  case 0
  with cur preds show ?case by simp
next
  case (Suc n)
  then obtain st where
    run: "for_steps (rollout_step model get_kinematic_mask features (Some g)) [0..<n] s0 = Inr st"
    and sh: "shape (current_positions st) = [N, INPUT_SEQUENCE_LENGTH, D]"
    and ps: "list_all (\<lambda>p. shape p = [N, D]) (updated_predictions st)"
    by auto
  from Suc.prems have "n + INPUT_SEQUENCE_LENGTH < L" by simp
  from rollout_step_completes [OF sh D ctx this sim, of get_kinematic_mask features]
  obtain st' p where
    step: "rollout_step model get_kinematic_mask features (Some g) n st = Inr st'"
    and sh': "shape (current_positions st') = [N, INPUT_SEQUENCE_LENGTH, D]"
    and p: "shape p = [N, D]" "updated_predictions st' = updated_predictions st @ [p]"
    by blast
  from run step have "for_steps (rollout_step model get_kinematic_mask features (Some g))
      [0..<Suc n] s0 = Inr st'"
    by (simp only: for_steps_snoc and_then_Inr)
  moreover from ps p have "list_all (\<lambda>p. shape p = [N, D]) (updated_predictions st')"
    by simp
  ultimately show ?case using sh' by blast
qed

lemma rollout_completes:
  fixes features :: "('a::zero) features"
  assumes pos: "shape (position features) = [N, T, D]" "INPUT_SEQUENCE_LENGTH \<le> T" "D \<noteq> 1"
    and ctx: "step_context features = Some g" "shape g = [L, 1]" "INPUT_SEQUENCE_LENGTH < L"
    and sim: "\<forall>args. shape (arg_position_sequence args) = [N, INPUT_SEQUENCE_LENGTH, D] \<longrightarrow>
                (\<exists>out P. inference model args = Inr out \<and> shape out = [N, Suc P, D])"
  shows "\<exists>initial stacked. rollout model get_kinematic_mask features = Inr (initial, stacked, g)
           \<and> shape stacked = [L - INPUT_SEQUENCE_LENGTH, N, D]"
proof -
  let ?n = "L - INPUT_SEQUENCE_LENGTH"
  obtain initial where
    initial: "slice1 0 (Some INPUT_SEQUENCE_LENGTH) (position features) = Inr initial"
    and shi: "shape initial = [N, INPUT_SEQUENCE_LENGTH, D]"
    using pos(2) by (auto simp: slice1_Inr [OF pos(1)])
  have "?n + INPUT_SEQUENCE_LENGTH \<le> L" using ctx(3) by simp
  from rollout_steps_complete [of "rollout_init initial" N D g L model ?n get_kinematic_mask features,
      OF _ _ pos(3) ctx(2) sim this] shi
  obtain st where
    run: "for_steps (rollout_step model get_kinematic_mask features (Some g)) [0..<?n]
            (rollout_init initial) = Inr st"
    and ps: "list_all (\<lambda>p. shape p = [N, D]) (updated_predictions st)"
    by (auto simp: rollout_init_def)
  from for_steps_frame [OF run] have len: "length (updated_predictions st) = ?n"
    and ini: "initial_positions st = initial"
    by (auto simp: rollout_init_def)
  have range: "range_py (int L - int INPUT_SEQUENCE_LENGTH) = [0..<?n]"
    by (simp add: range_py_def nat_diff_distrib')
  have loop: "rollout_loop model get_kinematic_mask features = Inr (g, st)"
    by (simp add: rollout_loop_def initial ctx to_device_def shape0_def range run)
  from len ctx(3) obtain p ps' where cons: "updated_predictions st = p # ps'"
    by (cases "updated_predictions st") auto
  with ps have shp: "shape p = [N, D]" and "list_all (\<lambda>u. shape u = [N, D]) ps'"
    by simp_all
  then have all: "list_all (\<lambda>u. shape u = shape p) (updated_predictions st)"
    by (simp add: cons)
  let ?stacked = "\<lparr>shape = length (updated_predictions st) # shape p,
                   elems = concat (map elems (updated_predictions st))\<rparr>"
  have "stack (updated_predictions st) = Inr ?stacked"
    using all by (simp add: stack_def cons)
  with loop ini have "rollout model get_kinematic_mask features = Inr (initial, ?stacked, g)"
    by (simp add: rollout_def)
  moreover have "shape ?stacked = [?n, N, D]" by (simp add: len shp)
  ultimately show ?thesis by blast
qed

subsection \<open>The kinematic mask\<close>

text \<open>
  Claim C6. A step computes \<^verbatim>\<open>kinematic_mask\<close> and does not use it: the snapshot appended
  to \<^verbatim>\<open>updated_predictions\<close> and put at the end of the window is the first prediction of
  the simulator's output, for all particles, and the step is the same whatever the mask
  says.
\<close>

theorem kinematic_mask_not_applied:
  assumes "rollout_step model get_kinematic_mask features gc k st = Inr st'"
  shows "\<exists>args out first p.
           step_args features gc k (current_positions st) = Inr args
           \<and> inference model args = Inr out
           \<and> select1 0 out = Inr first \<and> squeeze1 first = Inr p
           \<and> updated_predictions st' = updated_predictions st @ [p]
           \<and> and_then (slice1 1 None (current_positions st)) (\<lambda>older.
               and_then (unsqueeze1 p) (\<lambda>newest. cat older newest 1)) = Inr (current_positions st')
           \<and> (\<forall>mask. rollout_step model mask features gc k st = Inr st')"
proof -
  from rollout_step_Inr [OF assms] obtain args out first p older newest window where
    a: "step_args features gc k (current_positions st) = Inr args"
    and b: "inference model args = Inr out"
    and c: "select1 0 out = Inr first" and d: "squeeze1 first = Inr p"
    and e: "slice1 1 None (current_positions st) = Inr older"
    and f: "unsqueeze1 p = Inr newest"
    and g: "cat older newest 1 = Inr window"
    and st': "st' = st\<lparr>updated_predictions := updated_predictions st @ [p],
                       current_positions := window\<rparr>"
    by blast
  have "\<forall>mask. rollout_step model mask features gc k st = Inr st'"
    using a b c d e f g by (simp add: rollout_step_def st')
  moreover have "and_then (slice1 1 None (current_positions st)) (\<lambda>older.
               and_then (unsqueeze1 p) (\<lambda>newest. cat older newest 1)) = Inr (current_positions st')"
    using e f g by (simp add: st')
  moreover have "updated_predictions st' = updated_predictions st @ [p]"
    by (simp add: st')
  ultimately show ?thesis using a b c d by blast
qed


lemma toy_step_eval:
  "rollout_step toy_model toy_mask toy_features (Some toy_context) 0 (rollout_init toy_window)
     = Inr toy_after_first_step"
  by code_simp

theorem kinematic_mask_not_applied_witness:
  "rollout_step toy_model toy_mask toy_features (Some toy_context) 0 (rollout_init toy_window)
     = Inr toy_after_first_step
   \<and> toy_mask (particle_type toy_features) = \<lparr>shape = [1], elems = [True]\<rparr>
   \<and> inference toy_model
         (inference_args_of toy_features toy_window \<lparr>shape = [1, 6], elems = [1, 2, 3, 4, 5, 0]\<rparr>)
       = Inr \<lparr>shape = [1, 1, 2], elems = [23, 24]\<rparr>
   \<and> updated_predictions toy_after_first_step = [\<lparr>shape = [1, 2], elems = [23, 24]\<rparr>]
   \<and> rollout_step toy_model toy_no_mask toy_features (Some toy_context) 0 (rollout_init toy_window)
     = Inr toy_after_first_step"
proof -
  note t = kinematic_mask_not_applied [OF toy_step_eval]
  from t have "rollout_step toy_model toy_no_mask toy_features (Some toy_context) 0
      (rollout_init toy_window) = Inr toy_after_first_step"
    by blast
  moreover have "toy_mask (particle_type toy_features) = \<lparr>shape = [1], elems = [True]\<rparr>"
    by (simp add: toy_mask_def toy_features_def)
  moreover have "inference toy_model
         (inference_args_of toy_features toy_window \<lparr>shape = [1, 6], elems = [1, 2, 3, 4, 5, 0]\<rparr>)
       = Inr \<lparr>shape = [1, 1, 2], elems = [23, 24]\<rparr>"
    by code_simp
  moreover have "updated_predictions toy_after_first_step = [\<lparr>shape = [1, 2], elems = [23, 24]\<rparr>]"
    by (simp add: toy_after_first_step_def)
  ultimately show ?thesis using toy_step_eval by blast
qed

subsection \<open>Determinism\<close>

lemma rollout_step_features:
  assumes "n_particles_per_example f1 = n_particles_per_example f2"
    and "n_edges_per_example f1 = n_edges_per_example f2"
    and "senders f1 = senders f2" and "receivers f1 = receivers f2"
    and "particle_type f1 = particle_type f2"
  shows "rollout_step model get_kinematic_mask f1
         = rollout_step model get_kinematic_mask (f2 :: ('a::zero) features)"
proof (intro ext)
  fix gc k and st :: "'a rollout_state"
  from assms have "step_args f1 gc k (current_positions st) = step_args f2 gc k (current_positions st)"
    by (simp add: step_args_def inference_args_of_def)
  then show "rollout_step model get_kinematic_mask f1 gc k st
             = rollout_step model get_kinematic_mask f2 gc k st"
    by (simp add: rollout_step_def)
qed

text \<open>
  Claim C9. The rollout is a function of the initial window, the topology, the particle
  types, the context and the simulator: two examples that agree on these give the same
  trajectory and the same record, whatever else differs (the snapshots after the window).
\<close>

theorem rollout_deterministic:
  assumes same_window: "slice1 0 (Some INPUT_SEQUENCE_LENGTH) (position f1)
                     = slice1 0 (Some INPUT_SEQUENCE_LENGTH) (position f2)"
    and same_topology: "n_particles_per_example f1 = n_particles_per_example f2"
      "n_edges_per_example f1 = n_edges_per_example f2"
      "senders f1 = senders f2" "receivers f1 = receivers f2"
    and same_types: "particle_type f1 = particle_type f2"
    and same_context: "step_context f1 = step_context f2"
  shows "rollout model get_kinematic_mask f1 = rollout model get_kinematic_mask f2
         \<and> example_record metadata model get_kinematic_mask f1
             = example_record metadata model get_kinematic_mask f2"
proof -
  note step = rollout_step_features [OF same_topology same_types, of model get_kinematic_mask]
  have "rollout_loop model get_kinematic_mask f1 = rollout_loop model get_kinematic_mask f2"
    by (simp add: rollout_loop_def same_window same_context step)
  then have r: "rollout model get_kinematic_mask f1 = rollout model get_kinematic_mask f2"
    by (simp add: rollout_def)
  have "rollout_op metadata f1 = rollout_op metadata f2"
    by (intro ext) (simp add: rollout_op_def same_types)
  with r show ?thesis by (simp add: example_record_def)
qed

theorem rollout_deterministic_witness:
  "slice1 0 (Some INPUT_SEQUENCE_LENGTH) (position toy_features)
     = slice1 0 (Some INPUT_SEQUENCE_LENGTH) (position toy_features_longer)
   \<and> position toy_features_longer \<noteq> position toy_features
   \<and> rollout toy_model toy_mask toy_features_longer = rollout toy_model toy_mask toy_features
   \<and> rollout toy_model toy_mask toy_features_longer = Inr (toy_window, toy_rollout, toy_context)"
proof -
  have w: "slice1 0 (Some INPUT_SEQUENCE_LENGTH) (position toy_features)
     = slice1 0 (Some INPUT_SEQUENCE_LENGTH) (position toy_features_longer)"
    by code_simp
  have d: "position toy_features_longer \<noteq> position toy_features"
    by (simp add: toy_features_longer_def toy_features_def toy_position_def)
  have "rollout toy_model toy_mask toy_features = rollout toy_model toy_mask toy_features_longer"
    using rollout_deterministic [of toy_features toy_features_longer toy_model toy_mask, OF w]
    by (simp add: toy_features_longer_def)
  with w d toy_rollout_eval show ?thesis by simp
qed

subsection \<open>File names\<close>

lemma digit_inject:
  assumes "d < 10" and "e < 10" and "digit d = digit e"
  shows "d = e"
proof -
  have "distinct ''0123456789''" by simp
  moreover have "d < length ''0123456789''" "e < length ''0123456789''"
    using assms(1,2) by simp_all
  ultimately show ?thesis
    using assms(3) unfolding digit_def by (simp only: nth_eq_iff_index_eq)
qed

lemma str_not_Nil: "str n \<noteq> []"
  by (subst str.simps) simp

lemma str_inject: "str n = str m \<Longrightarrow> n = m"
proof (induction n arbitrary: m rule: str.induct)
  case (1 n)
  show ?case
  proof (cases "n < 10")
    case True
    show ?thesis
    proof (cases "m < 10")
      case True
      with \<open>n < 10\<close> "1.prems" have "digit n = digit m"
        by (simp add: str.simps [of n] str.simps [of m])
      with \<open>n < 10\<close> True show ?thesis by (rule digit_inject)
    next
      case False
      with \<open>n < 10\<close> "1.prems" have "str (m div 10) = []"
        by (simp add: str.simps [of n] str.simps [of m])
      with str_not_Nil show ?thesis by blast
    qed
  next
    case False
    show ?thesis
    proof (cases "m < 10")
      case True
      with False "1.prems" have "str (n div 10) = []"
        by (simp add: str.simps [of n] str.simps [of m])
      with str_not_Nil show ?thesis by blast
    next
      case m: False
      with False "1.prems" have eq: "str (n div 10) = str (m div 10)"
        and dg: "digit (n mod 10) = digit (m mod 10)"
        by (simp_all add: str.simps [of n] str.simps [of m])
      from "1.IH" [OF False eq] have q: "n div 10 = m div 10" .
      have "n mod 10 = m mod 10"
        by (rule digit_inject [OF _ _ dg]) simp_all
      with q show ?thesis by (metis div_mult_mod_eq)
    qed
  qed
qed

lemma rollout_filename_inject:
  assumes "rollout_filename C i = rollout_filename C j"
  shows "i = j"
proof -
  let ?pre = "if output_path C = [] \<or> last (output_path C) = CHR ''/''
              then output_path C else output_path C @ ''/''"
  have name: "rollout_filename C k =
                ?pre @ ''rollout_'' @ eval_split C @ ''_'' @ str k @ ''.json''" for k
    by (simp add: rollout_filename_def path_join_def)
  from assms have "str i = str j"
    by (simp add: name)
  then show ?thesis by (rule str_inject)
qed









subsection \<open>The records written by the loop over the examples\<close>

lemma dump_Inr:
  assumes "dump filename v f = Inr f'"
  shows "f' = f\<lparr>files := (files f)(filename \<mapsto> v)\<rparr>"
  using assms by (auto simp: dump_def split: if_splits option.splits)

lemma makedirs_Inr:
  assumes "makedirs p f = Inr f'"
  shows "p \<noteq> [] \<and> f' = f\<lparr>dirs := dirs f \<union> set (ancestors p) \<union> {strip_sep p}\<rparr>"
  using assms by (auto simp: makedirs_def split: if_splits)

lemma path_exists_dump:
  assumes "path_exists f p"
  shows "path_exists (f\<lparr>files := (files f)(filename \<mapsto> v)\<rparr>) p"
  using assms by (auto simp: path_exists_def is_dir_def is_file_def)

lemma write_record_None:
  assumes "write_record C i v f = (None, f')"
  shows "files f' = (files f)(rollout_filename C i \<mapsto> v)
         \<and> dirs f \<subseteq> dirs f'
         \<and> (path_exists f (output_path C) \<longrightarrow> dirs f' = dirs f)
         \<and> (\<not> path_exists f (output_path C) \<longrightarrow> strip_sep (output_path C) \<in> dirs f')
         \<and> path_exists f' (output_path C)"
proof (cases "path_exists f (output_path C)")
  case True
  with assms obtain written where
    "dump (rollout_filename C i) v f = Inr written" and "f' = written"
    by (auto simp: write_record_def split: sum.splits)
  with dump_Inr have f': "f' = f\<lparr>files := (files f)(rollout_filename C i \<mapsto> v)\<rparr>" by blast
  with True path_exists_dump [OF True] show ?thesis by simp
next
  case False
  with assms obtain made written where
    made: "makedirs (output_path C) f = Inr made"
    and "dump (rollout_filename C i) v made = Inr written" and "f' = written"
    by (auto simp: write_record_def split: sum.splits)
  with dump_Inr have f': "f' = made\<lparr>files := (files made)(rollout_filename C i \<mapsto> v)\<rparr>" by blast
  from makedirs_Inr [OF made] have ne: "output_path C \<noteq> []"
    and m: "made = f\<lparr>dirs := dirs f \<union> set (ancestors (output_path C)) \<union> {strip_sep (output_path C)}\<rparr>"
    by simp_all
  from ne have "path_exists f' (output_path C)"
    by (simp add: f' m path_exists_def is_dir_def)
  with False f' m show ?thesis by auto
qed

lemma write_record_Some:
  assumes "write_record C i v f = (Some e, f')"
  shows "files f' = files f \<and> dirs f \<subseteq> dirs f'
         \<and> (path_exists f (output_path C) \<longrightarrow> dirs f' = dirs f)"
  using assms
  by (auto simp: write_record_def split: sum.splits if_splits dest!: makedirs_Inr)

lemma example_body_Inr:
  assumes "example_body C metadata model get_kinematic_mask features st = Inr st'"
  shows "\<exists>v written. example_record metadata model get_kinematic_mask features = Inr v
             \<and> write_record C (example_index st) v (fs st) = (None, written)
             \<and> st' = \<lparr>loaded = True, example_index = example_index st + 1, fs = written\<rparr>"
proof -
  from assms obtain v where
    ev: "example_value metadata model get_kinematic_mask features st = Inr v"
    and wr: "(case write_record C (example_index st) v (fs st) of
                   (Some e, left) \<Rightarrow> Inl e
                 | (None, written) \<Rightarrow>
                     Inr \<lparr>loaded = True, example_index = example_index st + 1, fs = written\<rparr>)
                = Inr st'"
    unfolding example_body_def and_then_eq_Inr by blast
  from ev have v: "example_record metadata model get_kinematic_mask features = Inr v"
    unfolding example_value_def and_then_eq_Inr by blast
  obtain outcome written where w: "write_record C (example_index st) v (fs st) = (outcome, written)"
    by (cases "write_record C (example_index st) v (fs st)")
  with wr have "outcome = None"
    and "st' = \<lparr>loaded = True, example_index = example_index st + 1, fs = written\<rparr>"
    by (cases outcome; simp)+
  with v w show ?thesis by blast
qed

lemma example_body_Inl:
  assumes "example_body C metadata model get_kinematic_mask features st = Inl e"
  shows "files (files_when_raised C metadata model get_kinematic_mask features st) = files (fs st)
         \<and> dirs (fs st) \<subseteq> dirs (files_when_raised C metadata model get_kinematic_mask features st)
         \<and> (path_exists (fs st) (output_path C) \<longrightarrow>
              dirs (files_when_raised C metadata model get_kinematic_mask features st) = dirs (fs st))"
proof (cases "example_value metadata model get_kinematic_mask features st")
  case (Inl e')
  then show ?thesis by (simp add: files_when_raised_def)
next
  case (Inr v)
  with assms obtain left where "write_record C (example_index st) v (fs st) = (Some e, left)"
    by (auto simp: example_body_def split: prod.splits option.splits)
  with write_record_Some [OF this] Inr show ?thesis
    by (simp add: files_when_raised_def)
qed

lemma example_record_Inr:
  assumes "example_record metadata model get_kinematic_mask features = Inr v"
  shows "\<exists>initial stacked gc.
           rollout model get_kinematic_mask features = Inr (initial, stacked, gc)
           \<and> v = JDict [(''initial_positions'', tolist JFloat initial),
                        (''predicted_rollout'', tolist JFloat stacked),
                        (''particle_types'', tolist JInt (particle_type features)),
                        (''global_context'', tolist JFloat gc),
                        (''metadata'', metadata)]"
  using assms unfolding example_record_def and_then_eq_Inr
  by (auto simp: rollout_op_def split: prod.splits)

lemma examples_loop_files:
  assumes "examples_loop C metadata model get_kinematic_mask dataset st = (outcome, st')"
  shows "\<exists>n. n \<le> length dataset \<and> example_index st' = example_index st + n
           \<and> (outcome = None \<longrightarrow> n = length dataset)
           \<and> (\<forall>i<n. \<exists>v. example_record metadata model get_kinematic_mask (dataset ! i) = Inr v
                 \<and> files (fs st') (rollout_filename C (example_index st + i)) = Some v)
           \<and> (\<forall>p. (\<forall>i<n. p \<noteq> rollout_filename C (example_index st + i)) \<longrightarrow>
                 files (fs st') p = files (fs st) p)
           \<and> dirs (fs st) \<subseteq> dirs (fs st')
           \<and> (path_exists (fs st) (output_path C) \<longrightarrow> dirs (fs st') = dirs (fs st))
           \<and> (0 < n \<longrightarrow> path_exists (fs st') (output_path C))
           \<and> (0 < n \<and> \<not> path_exists (fs st) (output_path C) \<longrightarrow>
                 strip_sep (output_path C) \<in> dirs (fs st'))"
  using assms
proof (induction dataset arbitrary: st)
  case Nil
  then have "st' = st" by simp
  then show ?case by simp
next
  case (Cons features dataset)
  show ?case
  proof (cases "example_body C metadata model get_kinematic_mask features st")
    case (Inl e)
    with Cons.prems have
      "st' = st\<lparr>fs := files_when_raised C metadata model get_kinematic_mask features st\<rparr>"
      and "outcome = Some e"
      by simp_all
    with example_body_Inl [OF Inl] show ?thesis by simp
  next
    case (Inr st1)
    with Cons.prems have
      rest: "examples_loop C metadata model get_kinematic_mask dataset st1 = (outcome, st')"
      by simp
    from example_body_Inr [OF Inr] obtain v written where
      v: "example_record metadata model get_kinematic_mask features = Inr v"
      and w: "write_record C (example_index st) v (fs st) = (None, written)"
      and idx1: "example_index st1 = Suc (example_index st)"
      and fs1: "fs st1 = written"
      by auto
    from write_record_None [OF w] fs1 have
      files1: "files (fs st1) = (files (fs st))(rollout_filename C (example_index st) \<mapsto> v)"
      and dirs1: "dirs (fs st) \<subseteq> dirs (fs st1)"
        "path_exists (fs st) (output_path C) \<longrightarrow> dirs (fs st1) = dirs (fs st)"
        "\<not> path_exists (fs st) (output_path C) \<longrightarrow> strip_sep (output_path C) \<in> dirs (fs st1)"
      and exists1: "path_exists (fs st1) (output_path C)"
      by simp_all
    from Cons.IH [OF rest] obtain n where
      n: "n \<le> length dataset" "example_index st' = example_index st1 + n"
        "outcome = None \<longrightarrow> n = length dataset"
      and recs: "\<forall>i<n. \<exists>v. example_record metadata model get_kinematic_mask (dataset ! i) = Inr v
                 \<and> files (fs st') (rollout_filename C (example_index st1 + i)) = Some v"
      and frame: "\<forall>p. (\<forall>i<n. p \<noteq> rollout_filename C (example_index st1 + i)) \<longrightarrow>
                 files (fs st') p = files (fs st1) p"
      and dirs: "dirs (fs st1) \<subseteq> dirs (fs st')"
        "path_exists (fs st1) (output_path C) \<longrightarrow> dirs (fs st') = dirs (fs st1)"
      by blast
    from dirs(2) exists1 have same: "dirs (fs st') = dirs (fs st1)" by simp
    let ?name = "\<lambda>i. rollout_filename C (example_index st + i)"
    have first: "files (fs st') (?name 0) = Some v"
    proof -
      have "\<forall>i<n. ?name 0 \<noteq> rollout_filename C (example_index st1 + i)"
      proof (intro allI impI notI)
        fix i assume "?name 0 = rollout_filename C (example_index st1 + i)"
        then have "example_index st + 0 = example_index st1 + i"
          by (rule rollout_filename_inject)
        with idx1 show False by simp
      qed
      with frame have "files (fs st') (?name 0) = files (fs st1) (?name 0)" by blast
      then show ?thesis by (simp add: files1)
    qed
    have a: "Suc n \<le> length (features # dataset)" using n(1) by simp
    have b: "example_index st' = example_index st + Suc n" using n(2) idx1 by simp
    have c: "outcome = None \<longrightarrow> Suc n = length (features # dataset)" using n(3) by simp
    have d: "\<forall>i<Suc n. \<exists>v. example_record metadata model get_kinematic_mask ((features # dataset) ! i) = Inr v
                 \<and> files (fs st') (?name i) = Some v"
    proof (intro allI impI)
      fix i assume "i < Suc n"
      show "\<exists>v. example_record metadata model get_kinematic_mask ((features # dataset) ! i) = Inr v
                 \<and> files (fs st') (?name i) = Some v"
      proof (cases i)
        case 0
        with v first show ?thesis by simp
      next
        case (Suc j)
        with \<open>i < Suc n\<close> have "j < n" by simp
        with recs Suc show ?thesis by (simp add: idx1)
      qed
    qed
    have e: "\<forall>p. (\<forall>i<Suc n. p \<noteq> ?name i) \<longrightarrow> files (fs st') p = files (fs st) p"
    proof (intro allI impI)
      fix p assume p: "\<forall>i<Suc n. p \<noteq> ?name i"
      then have "p \<noteq> ?name 0" by blast
      moreover from p have "\<forall>i<n. p \<noteq> rollout_filename C (example_index st1 + i)"
        by (auto simp: idx1)
      with frame have "files (fs st') p = files (fs st1) p" by blast
      ultimately show "files (fs st') p = files (fs st) p"
        by (simp add: files1)
    qed
    have f: "dirs (fs st) \<subseteq> dirs (fs st')" using dirs1(1) same by simp
    have g: "path_exists (fs st) (output_path C) \<longrightarrow> dirs (fs st') = dirs (fs st)"
      using dirs1(2) same by simp
    have h: "0 < Suc n \<longrightarrow> path_exists (fs st') (output_path C)"
    proof
      from exists1 have "output_path C \<noteq> []" by (simp add: path_exists_def)
      have "files (fs st1) (output_path C) \<noteq> None \<longrightarrow> files (fs st') (output_path C) \<noteq> None"
      proof (cases "\<forall>i<n. output_path C \<noteq> rollout_filename C (example_index st1 + i)")
        case True
        with frame show ?thesis by simp
      next
        case False
        with recs show ?thesis by auto
      qed
      with exists1 same show "path_exists (fs st') (output_path C)"
        by (auto simp: path_exists_def is_dir_def is_file_def)
    qed
    have k: "0 < Suc n \<and> \<not> path_exists (fs st) (output_path C) \<longrightarrow>
                 strip_sep (output_path C) \<in> dirs (fs st')"
      using dirs1(3) same by simp
    from a b c d e f g h k show ?thesis by blast
  qed
qed






text \<open>
  Where writing raises: an empty output path, an output path that is a regular file, and a
  split name with a separator, whose directory nobody makes.
\<close>

lemma makedirs_empty_path: "makedirs [] f = Inl FileNotFoundError"
  by (simp add: makedirs_def)

lemma write_record_empty_output_path:
  assumes "output_path C = []"
  shows "write_record C i v f = (Some FileNotFoundError, f)"
  using assms by (simp add: write_record_def path_exists_def makedirs_def)

lemma toy_output_path_is_a_file:
  "fst (Inference toy_constants toy_metadata toy_model toy_mask [toy_features]
          (empty_filesystem\<lparr>files := [''out'' \<mapsto> toy_metadata]\<rparr>)) = Some NotADirectoryError"
  by code_simp

lemma toy_split_with_separator:
  "fst (Inference (toy_constants\<lparr>eval_split := ''a/b''\<rparr>) toy_metadata toy_model toy_mask
          [toy_features] empty_filesystem) = Some FileNotFoundError
   \<and> dirs (fs (snd (Inference (toy_constants\<lparr>eval_split := ''a/b''\<rparr>) toy_metadata toy_model
          toy_mask [toy_features] empty_filesystem))) = {''out''}"
  by code_simp

subsection \<open>The initial window in the record\<close>

text \<open>
  Claim C10. The record written for an example has under \<^verbatim>\<open>initial_positions\<close> the first
  \<open>INPUT_SEQUENCE_LENGTH\<close> snapshots of the example's position sequence, and no step of the
  loop changes \<^verbatim>\<open>initial_positions\<close>.
\<close>

theorem initial_positions_unchanged:
  assumes "example_body C metadata model get_kinematic_mask features st = Inr st'"
  shows "\<exists>initial kvs.
           slice1 0 (Some INPUT_SEQUENCE_LENGTH) (position features) = Inr initial
           \<and> files (fs st') (rollout_filename C (example_index st)) = Some (JDict kvs)
           \<and> map_of kvs ''initial_positions'' = Some (tolist JFloat initial)
           \<and> (\<forall>gc ks s. for_steps (rollout_step model get_kinematic_mask features gc) ks
                           (rollout_init initial) = Inr s \<longrightarrow>
                 initial_positions s = initial)"
proof -
  from example_body_Inr [OF assms] obtain v written where
    v: "example_record metadata model get_kinematic_mask features = Inr v"
    and w: "write_record C (example_index st) v (fs st) = (None, written)"
    and st': "fs st' = written"
    by auto
  from example_record_Inr [OF v] obtain initial stacked gc where
    r: "rollout model get_kinematic_mask features = Inr (initial, stacked, gc)"
    and kv: "v = JDict [(''initial_positions'', tolist JFloat initial),
                        (''predicted_rollout'', tolist JFloat stacked),
                        (''particle_types'', tolist JInt (particle_type features)),
                        (''global_context'', tolist JFloat gc),
                        (''metadata'', metadata)]"
    by blast
  from rollout_Inr [OF r] obtain final where
    loop: "rollout_loop model get_kinematic_mask features = Inr (gc, final)"
    and initial: "initial = initial_positions final"
    by blast
  from rollout_loop_Inr [OF loop] obtain initial0 l where
    slice: "slice1 0 (Some INPUT_SEQUENCE_LENGTH) (position features) = Inr initial0"
    and run: "for_steps (rollout_step model get_kinematic_mask features (Some gc))
                (range_py (l - int INPUT_SEQUENCE_LENGTH)) (rollout_init initial0) = Inr final"
    by blast
  from for_steps_frame [OF run] initial have same: "initial = initial0"
    by (simp add: rollout_init_def)
  have frame: "\<forall>gc ks s. for_steps (rollout_step model get_kinematic_mask features gc) ks
                           (rollout_init initial) = Inr s \<longrightarrow>
                 initial_positions s = initial"
  proof (intro allI impI)
    fix gc ks s
    assume "for_steps (rollout_step model get_kinematic_mask features gc) ks
              (rollout_init initial) = Inr s"
    from for_steps_frame [OF this] show "initial_positions s = initial"
      by (simp add: rollout_init_def)
  qed
  have "files (fs st') (rollout_filename C (example_index st)) = Some v"
    using write_record_None [OF w] by (simp add: st')
  moreover have "map_of [(''initial_positions'', tolist JFloat initial),
                        (''predicted_rollout'', tolist JFloat stacked),
                        (''particle_types'', tolist JInt (particle_type features)),
                        (''global_context'', tolist JFloat gc),
                        (''metadata'', metadata)] ''initial_positions''
                 = Some (tolist JFloat initial)"
    by simp
  ultimately show ?thesis using slice same kv frame by blast
qed

lemma toy_first_body:
  "example_body toy_constants toy_metadata toy_model toy_mask toy_features
     \<lparr>loaded = False, example_index = 0, fs = empty_filesystem\<rparr>
   = Inr \<lparr>loaded = True, example_index = 1,
          fs = snd (write_record toy_constants 0 toy_record empty_filesystem)\<rparr>"
proof -
  have "load_model toy_model toy_features = Inr ()"
    by code_simp
  moreover have "example_record toy_metadata toy_model toy_mask toy_features = Inr toy_record"
    by code_simp
  moreover have "fst (write_record toy_constants 0 toy_record empty_filesystem) = None"
    by code_simp
  ultimately show ?thesis
    by (cases "write_record toy_constants 0 toy_record empty_filesystem")
      (simp add: example_body_def example_value_def)
qed

theorem initial_positions_unchanged_witness:
  "example_body toy_constants toy_metadata toy_model toy_mask toy_features
     \<lparr>loaded = False, example_index = 0, fs = empty_filesystem\<rparr>
   = Inr \<lparr>loaded = True, example_index = 1,
          fs = snd (write_record toy_constants 0 toy_record empty_filesystem)\<rparr>
   \<and> slice1 0 (Some INPUT_SEQUENCE_LENGTH) (position toy_features) = Inr toy_window
   \<and> map_of (case toy_record of JDict kvs \<Rightarrow> kvs) ''initial_positions''
       = Some (tolist JFloat toy_window)
   \<and> initial_positions toy_after_first_step = toy_window"
proof -
  note t = initial_positions_unchanged [OF toy_first_body]
  have w: "slice1 0 (Some INPUT_SEQUENCE_LENGTH) (position toy_features) = Inr toy_window"
    by code_simp
  from t w have "\<forall>gc ks s. for_steps (rollout_step toy_model toy_mask toy_features gc) ks
                           (rollout_init toy_window) = Inr s \<longrightarrow>
                 initial_positions s = toy_window"
    by auto
  with toy_first_step have "initial_positions toy_after_first_step = toy_window"
    by blast
  moreover have "map_of (case toy_record of JDict kvs \<Rightarrow> kvs) ''initial_positions''
       = Some (tolist JFloat toy_window)"
    by code_simp
  ultimately show ?thesis using toy_first_body w by blast
qed


subsection \<open>A failing simulator call\<close>

lemma examples_loop_append:
  "examples_loop C metadata model get_kinematic_mask (xs @ ys) st =
     (case examples_loop C metadata model get_kinematic_mask xs st of
        (None, st') \<Rightarrow> examples_loop C metadata model get_kinematic_mask ys st'
      | (Some e, st') \<Rightarrow> (Some e, st'))"
proof (induction xs arbitrary: st)
  case Nil
  show ?case by simp
next
  case (Cons x xs)
  show ?case
    by (cases "example_body C metadata model get_kinematic_mask x st") (simp_all add: Cons.IH)
qed

lemma examples_loop_loaded:
  assumes "examples_loop C metadata model get_kinematic_mask xs st = (None, st')"
    and "xs \<noteq> [] \<or> loaded st"
  shows "loaded st'"
  using assms
proof (induction xs arbitrary: st)
  case Nil
  then show ?case by simp
next
  case (Cons x xs)
  from Cons.prems(1) obtain st1 where
    body: "example_body C metadata model get_kinematic_mask x st = Inr st1"
    and rest: "examples_loop C metadata model get_kinematic_mask xs st1 = (None, st')"
    by (cases "example_body C metadata model get_kinematic_mask x st") simp_all
  from example_body_Inr [OF body] have "loaded st1" by auto
  with Cons.IH [OF rest] show ?case by simp
qed

lemma rollout_step_simulator_fails:
  assumes "step_args features gc k (current_positions s) = Inr args"
    and "inference model args = Inl e"
  shows "rollout_step model get_kinematic_mask features gc k s = Inl e"
  using assms by (simp add: rollout_step_def)

lemma for_steps_fails:
  assumes "for_steps body [0..<k] s0 = Inr sk" and "body k sk = Inl e" and "k < n"
  shows "for_steps body [0..<n] s0 = Inl e"
proof -
  from assms(3) have "[0..<n] = [0..<k] @ k # [Suc k..<n]"
    by (metis le_add_diff_inverse less_imp_le_nat upt_add_eq_append upt_conv_Cons zero_le)
  with assms(1,2) show ?thesis
    by (simp add: for_steps_append)
qed

lemma toy_run_outcome:
  "fst (Inference toy_constants toy_metadata toy_model toy_mask toy_dataset empty_filesystem)
     = Some SimulatorError"
  by code_simp

lemma toy_run_index:
  "example_index (snd (Inference toy_constants toy_metadata toy_model toy_mask toy_dataset
     empty_filesystem)) = 1"
  by code_simp

text \<open>
  Claim C5 as stated fails: with three examples and a simulator call that
  raises in the second, the run ends with that exception, and the third example, which
  rolls out when taken alone, gets no record.
\<close>

theorem example_independence_counterexample:
  "step_args toy_features_negative (Some toy_context) 0 toy_window_negative =
     Inr (inference_args_of toy_features_negative toy_window_negative
            \<lparr>shape = [1, 6], elems = [1, 2, 3, 4, 5, 0]\<rparr>)
   \<and> inference toy_model
         (inference_args_of toy_features_negative toy_window_negative
            \<lparr>shape = [1, 6], elems = [1, 2, 3, 4, 5, 0]\<rparr>) = Inl SimulatorError
   \<and> toy_dataset ! 1 = toy_features_negative
   \<and> example_record toy_metadata toy_model toy_mask (toy_dataset ! 2) = Inr toy_record
   \<and> fst (Inference toy_constants toy_metadata toy_model toy_mask toy_dataset empty_filesystem)
       = Some SimulatorError
   \<and> example_index (snd (Inference toy_constants toy_metadata toy_model toy_mask toy_dataset
        empty_filesystem)) = 1
   \<and> files (fs (snd (Inference toy_constants toy_metadata toy_model toy_mask toy_dataset
        empty_filesystem))) (rollout_filename toy_constants 2) = None"
proof -
  have "step_args toy_features_negative (Some toy_context) 0 toy_window_negative =
     Inr (inference_args_of toy_features_negative toy_window_negative
            \<lparr>shape = [1, 6], elems = [1, 2, 3, 4, 5, 0]\<rparr>)"
    by code_simp
  moreover have "inference toy_model
         (inference_args_of toy_features_negative toy_window_negative
            \<lparr>shape = [1, 6], elems = [1, 2, 3, 4, 5, 0]\<rparr>) = Inl SimulatorError"
    by code_simp
  moreover have "toy_dataset ! 1 = toy_features_negative"
    by (simp add: toy_dataset_def)
  moreover have "example_record toy_metadata toy_model toy_mask (toy_dataset ! 2) = Inr toy_record"
    by code_simp
  moreover have "files (fs (snd (Inference toy_constants toy_metadata toy_model toy_mask toy_dataset
        empty_filesystem))) (rollout_filename toy_constants 2) = None"
    by code_simp
  ultimately show ?thesis using toy_run_outcome toy_run_index by blast
qed

text \<open>
  Claim C5, amended. When the simulator call of some step of an example raises, the
  exception leaves \<^verbatim>\<open>Inference\<close>: the run ends with it in the state that the examples
  before left, so their records are in place and no file is written for this example or
  a later one.
\<close>

theorem simulator_failure_aborts_run:
  assumes earlier: "Inference C metadata model get_kinematic_mask earlier files0 = (None, st)"
      "earlier \<noteq> []"
    and initial: "slice1 0 (Some INPUT_SEQUENCE_LENGTH) (position features) = Inr initial"
    and ctx: "step_context features = Some g" "shape g = L # rest"
    and steps: "for_steps (rollout_step model get_kinematic_mask features (Some g)) [0..<k]
                  (rollout_init initial) = Inr sk"
    and k: "k \<in> set (range_py (int L - int INPUT_SEQUENCE_LENGTH))"
    and args: "step_args features (Some g) k (current_positions sk) = Inr args"
    and fail: "inference model args = Inl e"
  shows "Inference C metadata model get_kinematic_mask (earlier @ features # later) files0
           = (Some e, st)
         \<and> example_index st = length earlier
         \<and> (\<forall>i<length earlier. \<exists>v.
               example_record metadata model get_kinematic_mask (earlier ! i) = Inr v
               \<and> files (fs st) (rollout_filename C i) = Some v)
         \<and> (\<forall>p. (\<forall>i<length earlier. p \<noteq> rollout_filename C i) \<longrightarrow>
               files (fs st) p = files files0 p)"
proof -
  let ?st0 = "\<lparr>loaded = False, example_index = 0, fs = files0\<rparr>"
  from earlier(1) have loop:
    "examples_loop C metadata model get_kinematic_mask earlier ?st0 = (None, st)"
    by (simp add: Inference_def)
  from examples_loop_loaded [OF loop] earlier(2) have loaded: "loaded st" by simp
  from args fail have "rollout_step model get_kinematic_mask features (Some g) k sk = Inl e"
    by (rule rollout_step_simulator_fails)
  moreover from k have "k < nat (int L - int INPUT_SEQUENCE_LENGTH)"
    by (simp add: range_py_def)
  ultimately have "for_steps (rollout_step model get_kinematic_mask features (Some g))
      (range_py (int L - int INPUT_SEQUENCE_LENGTH)) (rollout_init initial) = Inl e"
    unfolding range_py_def using steps by (intro for_steps_fails)
  then have "rollout_loop model get_kinematic_mask features = Inl e"
    by (simp add: rollout_loop_def initial ctx to_device_def shape0_def)
  then have "example_record metadata model get_kinematic_mask features = Inl e"
    by (simp add: example_record_def rollout_def)
  with loaded have raised: "example_value metadata model get_kinematic_mask features st = Inl e"
    by (simp add: example_value_def)
  then have "example_body C metadata model get_kinematic_mask features st = Inl e"
    and "files_when_raised C metadata model get_kinematic_mask features st = fs st"
    by (simp_all add: example_body_def files_when_raised_def)
  with loop have run: "Inference C metadata model get_kinematic_mask (earlier @ features # later) files0
           = (Some e, st)"
    by (simp add: Inference_def examples_loop_append)
  from examples_loop_files [OF loop] have
    "example_index st = length earlier"
    and "\<forall>i<length earlier. \<exists>v.
               example_record metadata model get_kinematic_mask (earlier ! i) = Inr v
               \<and> files (fs st) (rollout_filename C i) = Some v"
    and "\<forall>p. (\<forall>i<length earlier. p \<noteq> rollout_filename C i) \<longrightarrow>
               files (fs st) p = files files0 p"
    by auto
  with run show ?thesis by blast
qed


theorem simulator_failure_aborts_run_witness:
  "fst (Inference toy_constants toy_metadata toy_model toy_mask [toy_features] empty_filesystem) = None
   \<and> slice1 0 (Some INPUT_SEQUENCE_LENGTH) (position toy_features_negative) = Inr toy_window_negative
   \<and> step_context toy_features_negative = Some toy_context
   \<and> 0 \<in> set (range_py (int 7 - int INPUT_SEQUENCE_LENGTH))
   \<and> inference toy_model
         (inference_args_of toy_features_negative toy_window_negative
            \<lparr>shape = [1, 6], elems = [1, 2, 3, 4, 5, 0]\<rparr>) = Inl SimulatorError
   \<and> Inference toy_constants toy_metadata toy_model toy_mask
         ([toy_features] @ toy_features_negative # [toy_features_longer]) empty_filesystem
       = (Some SimulatorError,
          snd (Inference toy_constants toy_metadata toy_model toy_mask [toy_features] empty_filesystem))
   \<and> example_index
         (snd (Inference toy_constants toy_metadata toy_model toy_mask [toy_features] empty_filesystem))
       = length [toy_features]"
proof -
  let ?first = "Inference toy_constants toy_metadata toy_model toy_mask [toy_features] empty_filesystem"
  have none: "fst ?first = None"
    by code_simp
  then have h1: "?first = (None, snd ?first)"
    by (metis prod.collapse)
  have h2: "[toy_features] \<noteq> []" by simp
  have h3: "slice1 0 (Some INPUT_SEQUENCE_LENGTH) (position toy_features_negative)
              = Inr toy_window_negative"
    by code_simp
  have h4: "step_context toy_features_negative = Some toy_context"
    by (simp add: toy_features_negative_def toy_features_def)
  have h5: "shape toy_context = 7 # [1]" by (simp add: toy_context_def)
  have h6: "for_steps (rollout_step toy_model toy_mask toy_features_negative (Some toy_context))
              [0..<0] (rollout_init toy_window_negative) = Inr (rollout_init toy_window_negative)"
    by simp
  have h7: "0 \<in> set (range_py (int 7 - int INPUT_SEQUENCE_LENGTH))"
    by (simp add: range_py_def INPUT_SEQUENCE_LENGTH_def)
  have h8: "step_args toy_features_negative (Some toy_context) 0
              (current_positions (rollout_init toy_window_negative)) =
            Inr (inference_args_of toy_features_negative toy_window_negative
                   \<lparr>shape = [1, 6], elems = [1, 2, 3, 4, 5, 0]\<rparr>)"
    by code_simp
  have h9: "inference toy_model
         (inference_args_of toy_features_negative toy_window_negative
            \<lparr>shape = [1, 6], elems = [1, 2, 3, 4, 5, 0]\<rparr>) = Inl SimulatorError"
    by code_simp
  note t = simulator_failure_aborts_run [OF h1 h2 h3 h4 h5 h6 h7 h8 h9, of "[toy_features_longer]"]
  from t none h3 h4 h7 h9 show ?thesis by blast
qed

subsection \<open>An absent context\<close>

text \<open>
  Claim C4. With \<^verbatim>\<open>global_context\<close> \<^verbatim>\<open>None\<close> the branch of line 223 sets
  \<^verbatim>\<open>global_context_step\<close> to \<^verbatim>\<open>None\<close>, and the evaluation of the arguments at line 245
  raises \<^verbatim>\<open>AttributeError\<close> before the simulator is called; an example with no
  \<^verbatim>\<open>step_context\<close> raises it already at line 159 and ends the run.
\<close>

theorem absent_context_raises:
  fixes features :: "('a::zero) features"
  shows "step_args features None step current = Inl AttributeError
         \<and> rollout_step model get_kinematic_mask features None step st = Inl AttributeError
         \<and> load_model model (features\<lparr>step_context := None\<rparr>) = Inl AttributeError
         \<and> Inference C metadata model get_kinematic_mask
             (features\<lparr>step_context := None\<rparr> # dataset) files0
           = (Some AttributeError, \<lparr>loaded = False, example_index = 0, fs = files0\<rparr>)"
proof -
  have a: "step_args features None step current = Inl AttributeError" for current
    by (simp add: step_args_def global_context_step_def to_device_def)
  have b: "rollout_step model get_kinematic_mask features None step st = Inl AttributeError"
    by (simp add: rollout_step_def a)
  have c: "load_model model (features\<lparr>step_context := None\<rparr>) = Inl AttributeError"
    by (simp add: load_model_def to_device_def)
  then have "Inference C metadata model get_kinematic_mask
             (features\<lparr>step_context := None\<rparr> # dataset) files0
           = (Some AttributeError, \<lparr>loaded = False, example_index = 0, fs = files0\<rparr>)"
    by (simp add: Inference_def example_body_def example_value_def files_when_raised_def)
  with a b c show ?thesis by simp
qed

theorem absent_context_raises_witness:
  "Inference toy_constants toy_metadata toy_model toy_mask
     (toy_features\<lparr>step_context := None\<rparr> # [toy_features]) empty_filesystem
   = (Some AttributeError, \<lparr>loaded = False, example_index = 0, fs = empty_filesystem\<rparr>)
   \<and> rollout toy_model toy_mask (toy_features\<lparr>step_context := None\<rparr>) = Inl AttributeError
   \<and> rollout toy_model toy_mask toy_features = Inr (toy_window, toy_rollout, toy_context)"
proof -
  have "rollout toy_model toy_mask (toy_features\<lparr>step_context := None\<rparr>) = Inl AttributeError"
    by code_simp
  with absent_context_raises [of toy_features 0 toy_window toy_model toy_mask
      "rollout_init toy_window" toy_constants toy_metadata "[toy_features]" empty_filesystem]
    toy_rollout_eval
  show ?thesis by simp
qed

end
